theory Spec2Isabelle
  imports
    Complex_Main
    "HOL-Library.Char_ord"
    "HOL-Library.List_Lexorder"
    "HOL-Library.Product_Lexorder"
    "HOL-Library.Multiset"
begin

section \<open>Python values\<close>

text \<open>
  The values that the frame manager puts into its metadata trees, annotation payloads and
  trajectory rows are JSON-like: \<open>None\<close>, booleans, integers, floats, strings, lists and
  string-keyed dictionaries. A dictionary is an association list in insertion order, as
  Python iterates it. A float is modelled by the real number it denotes; NaN and the
  infinities are outside the model.
\<close>

datatype pyval =
    PNone
  | PBool bool
  | PInt int
  | PFloat real
  | PStr string
  | PList "pyval list"
  | PDict "(string \<times> pyval) list"

type_synonym py_dict = "(string \<times> pyval) list"

text \<open>\<open>d.get(k)\<close>: the value stored under the key, \<open>None\<close> when the key is missing.\<close>

definition dict_get :: "py_dict \<Rightarrow> string \<Rightarrow> pyval" where
  "dict_get d k = (case map_of d k of None \<Rightarrow> PNone | Some v \<Rightarrow> v)"

text \<open>\<open>d[k] = v\<close>: replaces the value in place, or appends a new key at the end.\<close>

fun dict_set :: "py_dict \<Rightarrow> string \<Rightarrow> pyval \<Rightarrow> py_dict" where
  "dict_set [] k v = [(k, v)]"
| "dict_set ((k', v') # d) k v =
     (if k' = k then (k, v) # d else (k', v') # dict_set d k v)"

text \<open>Python truthiness, as \<open>if value\<close>, \<open>not value\<close> and \<open>a or b\<close> test it.\<close>

fun truthy :: "pyval \<Rightarrow> bool" where
  "truthy PNone = False"
| "truthy (PBool b) = b"
| "truthy (PInt i) = (i \<noteq> 0)"
| "truthy (PFloat x) = (x \<noteq> 0)"
| "truthy (PStr s) = (s \<noteq> [])"
| "truthy (PList xs) = (xs \<noteq> [])"
| "truthy (PDict d) = (d \<noteq> [])"

definition py_or :: "pyval \<Rightarrow> pyval \<Rightarrow> pyval" where
  "py_or a b = (if truthy a then a else b)"

section \<open>common.py: the recursive pruner\<close>

text \<open>
  The test that \<open>prune_none\<close> applies to every pruned sub-value: it is dropped when it is
  \<open>None\<close>, an empty dict or an empty list.
\<close>

fun dropped :: "pyval \<Rightarrow> bool" where
  "dropped PNone = True"
| "dropped (PDict d) = (d = [])"
| "dropped (PList xs) = (xs = [])"
| "dropped _ = False"

text \<open>
  \<open>prune_none\<close> walks the items of a dict (\<open>prune_items\<close>) or the elements of a list
  (\<open>prune_elems\<close>) in order, prunes each one first and keeps it unless the pruned value
  is dropped. The keys of a dict are distinct, so \<open>out[key] = sub\<close> appends.
\<close>

fun prune_none :: "pyval \<Rightarrow> pyval"
  and prune_items :: "(string \<times> pyval) list \<Rightarrow> (string \<times> pyval) list"
  and prune_elems :: "pyval list \<Rightarrow> pyval list" where
  "prune_none (PDict d) = PDict (prune_items d)"
| "prune_none (PList xs) = PList (prune_elems xs)"
| "prune_none PNone = PNone"
| "prune_none (PBool b) = PBool b"
| "prune_none (PInt i) = PInt i"
| "prune_none (PFloat x) = PFloat x"
| "prune_none (PStr s) = PStr s"
| "prune_items [] = []"
| "prune_items (kv # d) =
     (let sub = prune_none (snd kv)
      in if dropped sub then prune_items d else (fst kv, sub) # prune_items d)"
| "prune_elems [] = []"
| "prune_elems (x # xs) =
     (let item = prune_none x
      in if dropped item then prune_elems xs else item # prune_elems xs)"

text \<open>
  A value is \<open>pruned\<close> when no dict or list inside it, at any depth, holds a \<open>None\<close>, an
  empty dict or an empty list.
\<close>

fun pruned :: "pyval \<Rightarrow> bool"
  and pruned_items :: "(string \<times> pyval) list \<Rightarrow> bool"
  and pruned_elems :: "pyval list \<Rightarrow> bool" where
  "pruned (PDict d) = pruned_items d"
| "pruned (PList xs) = pruned_elems xs"
| "pruned PNone = True"
| "pruned (PBool b) = True"
| "pruned (PInt i) = True"
| "pruned (PFloat x) = True"
| "pruned (PStr s) = True"
| "pruned_items [] = True"
| "pruned_items (kv # d) = (\<not> dropped (snd kv) \<and> pruned (snd kv) \<and> pruned_items d)"
| "pruned_elems [] = True"
| "pruned_elems (x # xs) = (\<not> dropped x \<and> pruned x \<and> pruned_elems xs)"

section \<open>Strings, paths and number formatting\<close>

text \<open>
  Strings are byte lists; the helpers below are the ASCII behaviour of the Python string
  methods and of \<open>posixpath\<close> that the code calls.
\<close>

definition is_space :: "char \<Rightarrow> bool" where
  "is_space c = (c \<in> set [CHR '' '', CHR 0x09, CHR 0x0A, CHR 0x0B, CHR 0x0C, CHR 0x0D,
                            CHR 0x1C, CHR 0x1D, CHR 0x1E, CHR 0x1F])"

text \<open>\<open>s.strip()\<close>\<close>

definition strip :: "string \<Rightarrow> string" where
  "strip s = rev (dropWhile is_space (rev (dropWhile is_space s)))"

text \<open>\<open>s.replace(",", ".")\<close>\<close>

definition replace_comma :: "string \<Rightarrow> string" where
  "replace_comma s = map (\<lambda>c. if c = CHR '','' then CHR ''.'' else c) s"

text \<open>\<open>s.lower()\<close> on ASCII letters\<close>

definition lower_char :: "char \<Rightarrow> char" where
  "lower_char c =
     (if CHR ''A'' \<le> c \<and> c \<le> CHR ''Z'' then char_of (of_char c + (32::nat)) else c)"

definition lower :: "string \<Rightarrow> string" where
  "lower s = map lower_char s"

text \<open>\<open>s.isdigit()\<close> on ASCII: a non-empty string of decimal digits\<close>

definition is_digit :: "char \<Rightarrow> bool" where
  "is_digit c = (CHR ''0'' \<le> c \<and> c \<le> CHR ''9'')"

definition isdigit :: "string \<Rightarrow> bool" where
  "isdigit s = (s \<noteq> [] \<and> list_all is_digit s)"

text \<open>\<open>s.split(sep)[0]\<close>: the part of \<open>s\<close> before the first separator character\<close>

definition split_first :: "char \<Rightarrow> string \<Rightarrow> string" where
  "split_first sep s = takeWhile (\<lambda>c. c \<noteq> sep) s"

text \<open>\<open>os.path.join(a, b)\<close>, \<open>os.path.basename(p)\<close> and \<open>os.path.splitext(p)\<close> of posixpath\<close>

definition path_join :: "string \<Rightarrow> string \<Rightarrow> string" where
  "path_join a b =
     (if b \<noteq> [] \<and> hd b = CHR ''/'' then b
      else if a = [] \<or> last a = CHR ''/'' then a @ b
      else a @ ''/'' @ b)"

definition basename :: "string \<Rightarrow> string" where
  "basename p = rev (takeWhile (\<lambda>c. c \<noteq> CHR ''/'') (rev p))"

definition splitext :: "string \<Rightarrow> string \<times> string" where
  "splitext p =
     (let b = basename p;
          e = rev (takeWhile (\<lambda>c. c \<noteq> CHR ''.'') (rev b));
          stem = take (length b - length e - 1) b
      in if CHR ''.'' \<in> set b \<and> (\<exists>c \<in> set stem. c \<noteq> CHR ''.'')
         then (take (length p - length e - 1) p, CHR ''.'' # e)
         else (p, []))"

text \<open>Decimal digits of a natural number, most significant first.\<close>

fun dec :: "nat \<Rightarrow> string" where
  "dec n = (if n < 10 then [''0123456789'' ! n]
            else dec (n div 10) @ [''0123456789'' ! (n mod 10)])"

declare dec.simps [simp del]

text \<open>
  The format specification \<open>0{width}d\<close> of an f-string: the decimal digits, padded on
  the left with zeros up to \<open>width\<close> characters; the sign, if any, counts in the width.
  The number is never truncated.
\<close>

definition zero_pad :: "nat \<Rightarrow> string \<Rightarrow> string" where
  "zero_pad width s = replicate (width - length s) CHR ''0'' @ s"

definition format_0d :: "nat \<Rightarrow> int \<Rightarrow> string" where
  "format_0d width n =
     (if n < 0 then CHR ''-'' # zero_pad (width - 1) (dec (nat (- n)))
      else zero_pad width (dec (nat n)))"

section \<open>The standard library's parsers\<close>

text \<open>
  Two functions of the Python standard library are parameters of the model:
  \<open>str_to_float text\<close> is \<open>float(text)\<close>, \<open>None\<close> when it raises \<open>ValueError\<close>, and
  \<open>strptime_ymd fmt text\<close> is \<open>datetime.strptime(text, fmt).strftime("%Y%m%d")\<close>,
  \<open>None\<close> when \<open>strptime\<close> raises \<open>ValueError\<close>.
\<close>

record stdlib =
  str_to_float :: "string \<Rightarrow> real option"
  strptime_ymd :: "string \<Rightarrow> string \<Rightarrow> string option"

text \<open>
  \<open>parse_float\<close> of common.py. A bool is an \<open>int\<close> for \<open>isinstance\<close>. The text of a
  list or of a dict starts with a bracket, which \<open>float\<close> rejects.
\<close>

fun parse_float :: "stdlib \<Rightarrow> pyval \<Rightarrow> real option" where
  "parse_float py PNone = None"
| "parse_float py (PBool b) = Some (if b then 1 else 0)"
| "parse_float py (PInt i) = Some (of_int i)"
| "parse_float py (PFloat x) = Some x"
| "parse_float py (PStr s) =
     (let text = strip s
      in if text = [] then None else str_to_float py (replace_comma text))"
| "parse_float py (PList xs) = None"
| "parse_float py (PDict d) = None"

text \<open>
  \<open>decode_exif_text\<close> of common.py on a text value: the control characters
  \<open>0x00\<close>-\<open>0x1f\<close> and \<open>0x7f\<close> are removed, the rest is stripped, and an empty result
  is \<open>None\<close>.
\<close>

definition is_control :: "char \<Rightarrow> bool" where
  "is_control c = (c \<le> CHR 0x1F \<or> c = CHR 0x7F)"

definition decode_exif_text :: "string option \<Rightarrow> string option" where
  "decode_exif_text v =
     (case v of
        None \<Rightarrow> None
      | Some t \<Rightarrow>
          (let text = strip (filter (\<lambda>c. \<not> is_control c) t)
           in if text = [] then None else Some text))"

text \<open>
  \<open>parse_exif_date\<close> of common.py: the first of the three formats that \<open>strptime\<close>
  accepts gives the date code.
\<close>

fun try_formats :: "stdlib \<Rightarrow> string list \<Rightarrow> string \<Rightarrow> string option" where
  "try_formats py [] text = None"
| "try_formats py (fmt # fmts) text =
     (case strptime_ymd py fmt text of
        Some code \<Rightarrow> Some code
      | None \<Rightarrow> try_formats py fmts text)"

definition parse_exif_date :: "stdlib \<Rightarrow> string option \<Rightarrow> string option" where
  "parse_exif_date py v =
     (case decode_exif_text v of
        None \<Rightarrow> None
      | Some text \<Rightarrow> try_formats py [''%Y:%m:%d'', ''%Y-%m-%d'', ''%Y%m%d''] text)"

section \<open>models.py: the typed dictionaries\<close>

text \<open>
  A \<open>PoseRow\<close> is read only through \<open>row.get(key)\<close>, which gives \<open>None\<close> both for a
  missing key and for a stored \<open>None\<close>: every field is an option. The pose row attached
  to a record is tested only for truthiness (\<open>if csv_pose\<close>, \<open>not csv_pose\<close>,
  \<open>csv_pose or {}\<close>), so \<open>None\<close> stands for \<open>None\<close> and for the empty dict alike, and
  \<open>Some row\<close> for a dict with at least one key, as \<open>load_pose_csv\<close> builds them.
\<close>

record pose_row =
  file_name :: "string option"
  gps_seconds :: "real option"
  timestamp :: "string option"
  gps_latitude :: "real option"
  gps_longitude :: "real option"
  gps_altitude_m :: "real option"
  heading_deg :: "real option"
  pitch_deg :: "real option"
  roll_deg :: "real option"

type_synonym pose_lookup = "(string \<times> pose_row) list"

text \<open>
  The derived-metadata tree that \<open>extract_exif_metadata\<close> returns: after pruning, each of
  its three keys is present or missing, and the two sub-trees are dicts.
\<close>

record derived_tree =
  datetime_original :: "string option"
  gps :: "py_dict option"
  camera :: "py_dict option"

record image_entry =
  path :: string
  entry_mtime :: real

record image_record =
  src :: string
  ext :: string
  original_name :: string
  acquisition_date :: string
  derived :: derived_tree
  mtime :: real
  csv_pose :: "pose_row option"

definition opt_float :: "real option \<Rightarrow> pyval" where
  "opt_float v = (case v of None \<Rightarrow> PNone | Some x \<Rightarrow> PFloat x)"

definition opt_str :: "string option \<Rightarrow> pyval" where
  "opt_str v = (case v of None \<Rightarrow> PNone | Some s \<Rightarrow> PStr s)"

definition opt_dict :: "py_dict option \<Rightarrow> pyval" where
  "opt_dict v = (case v of None \<Rightarrow> PNone | Some d \<Rightarrow> PDict d)"

text \<open>\<open>(csv_pose or {}).get(key)\<close> for a float field and for a string field\<close>

definition pose_float :: "pose_row option \<Rightarrow> (pose_row \<Rightarrow> real option) \<Rightarrow> pyval" where
  "pose_float cp field = (case cp of None \<Rightarrow> PNone | Some row \<Rightarrow> opt_float (field row))"

definition pose_str :: "pose_row option \<Rightarrow> (pose_row \<Rightarrow> string option) \<Rightarrow> pyval" where
  "pose_str cp field = (case cp of None \<Rightarrow> PNone | Some row \<Rightarrow> opt_str (field row))"

section \<open>exif\_utils.py: the date code and the derived tree\<close>

text \<open>
  The decoded tags of one image, as \<open>extract_exif_metadata\<close> computes them from the file
  before it derives the date code: the results of \<open>gps_to_degrees\<close>,
  \<open>rational_to_float\<close>, \<open>gps_datetime_utc\<close> and \<open>parse_exif_datetime\<close>, the text of
  the \<open>GPSDateStamp\<close> tag, the camera dict before pruning, and the file modification
  time formatted as \<open>%Y%m%d\<close> in UTC.
\<close>

record exif_tags =
  gps_lat :: "real option"
  gps_lon :: "real option"
  gps_alt :: "real option"
  gps_alt_ref_label :: "string option"
  gps_timestamp :: "string option"
  gps_date_stamp :: "string option"
  dt_text :: "string option"
  camera_tags :: py_dict
  mtime_code :: string

text \<open>\<open>a or b\<close> on two optional strings\<close>

definition str_or :: "string option \<Rightarrow> string option \<Rightarrow> string option" where
  "str_or a b = (case a of None \<Rightarrow> b | Some s \<Rightarrow> if s = [] then b else Some s)"

text \<open>Lines 128 to 132 of exif\_utils.py.\<close>

definition exif_date_code :: "stdlib \<Rightarrow> exif_tags \<Rightarrow> string" where
  "exif_date_code py tags =
     (let gps_date_code = parse_exif_date py (gps_date_stamp tags);
          dt_date_code =
            (case dt_text tags of
               None \<Rightarrow> None
             | Some t \<Rightarrow>
                 if t = [] then None
                 else parse_exif_date py (Some (split_first CHR '' '' (split_first CHR ''T'' t))));
          date_code = str_or gps_date_code dt_date_code
      in case date_code of
           None \<Rightarrow> mtime_code tags
         | Some code \<Rightarrow>
             if code = [] \<or> length code \<noteq> 8 \<or> \<not> isdigit code then mtime_code tags
             else code)"

text \<open>
  The pruned tree: a key of the top-level dict is kept unless its pruned value is \<open>None\<close>
  or empty.
\<close>

definition pruned_subtree :: "py_dict \<Rightarrow> py_dict option" where
  "pruned_subtree d = (let sub = prune_items d in if sub = [] then None else Some sub)"

definition extract_exif_metadata :: "stdlib \<Rightarrow> exif_tags \<Rightarrow> string \<times> derived_tree" where
  "extract_exif_metadata py tags =
     (exif_date_code py tags,
      \<lparr> datetime_original = dt_text tags,
        gps = pruned_subtree
          [(''latitude_deg'', opt_float (gps_lat tags)),
           (''longitude_deg'', opt_float (gps_lon tags)),
           (''altitude_m'', opt_float (gps_alt tags)),
           (''altitude_ref'', opt_str (gps_alt_ref_label tags)),
           (''timestamp_utc'', opt_str (gps_timestamp tags))],
        camera = pruned_subtree (camera_tags tags) \<rparr>)"

section \<open>processing.py: fusing metadata\<close>

text \<open>
  The sort key is a triple compared lexicographically, as Python compares tuples: the
  group, the time, the source path.
\<close>

definition record_sort_key :: "image_record \<Rightarrow> nat \<times> real \<times> string" where
  "record_sort_key r =
     (case csv_pose r of
        None \<Rightarrow> (1, mtime r, src r)
      | Some row \<Rightarrow>
          (case gps_seconds row of
             None \<Rightarrow> (1, mtime r, src r)
           | Some s \<Rightarrow> (0, s, src r)))"

definition choose_acquisition_date :: "stdlib \<Rightarrow> string \<Rightarrow> pose_row option \<Rightarrow> string" where
  "choose_acquisition_date py default_date cp =
     (case cp of
        None \<Rightarrow> default_date
      | Some row \<Rightarrow>
          (case timestamp row of
             None \<Rightarrow> default_date
           | Some ts \<Rightarrow>
               if ts = [] then default_date
               else
                 (case parse_exif_date py (Some (split_first CHR '' '' (split_first CHR ''T'' ts))) of
                    None \<Rightarrow> default_date
                  | Some csv_date \<Rightarrow> if csv_date = [] then default_date else csv_date)))"

text \<open>One step of the loop over the three coordinate keys.\<close>

definition override :: "py_dict \<Rightarrow> string \<Rightarrow> pyval \<Rightarrow> py_dict" where
  "override gps_info gps_key v = (if v \<noteq> PNone then dict_set gps_info gps_key v else gps_info)"

definition apply_csv_overrides :: "derived_tree \<Rightarrow> pose_row option \<Rightarrow> derived_tree" where
  "apply_csv_overrides d cp =
     (case cp of
        None \<Rightarrow> d
      | Some row \<Rightarrow>
          (let gps_info = (case gps d of None \<Rightarrow> [] | Some g \<Rightarrow> g);
               gps_info = override gps_info ''latitude_deg'' (opt_float (gps_latitude row));
               gps_info = override gps_info ''longitude_deg'' (opt_float (gps_longitude row));
               gps_info = override gps_info ''altitude_m'' (opt_float (gps_altitude_m row));
               gps_info = override gps_info ''timestamp_utc'' (opt_str (timestamp row))
           in d\<lparr>gps := Some (prune_items gps_info)\<rparr>))"

text \<open>\<open>normalize_image_key\<close> of common.py\<close>

definition normalize_image_key :: "string \<Rightarrow> string" where
  "normalize_image_key v = lower (fst (splitext (basename (strip v))))"

text \<open>
  The body of the loop of \<open>build_records\<close>; \<open>read_exif\<close> gives the decoded tags of the
  image stored at a path.
\<close>

definition build_record ::
  "stdlib \<Rightarrow> (string \<Rightarrow> exif_tags) \<Rightarrow> pose_lookup \<Rightarrow> image_entry \<Rightarrow> image_record" where
  "build_record py read_exif lookup entry =
     (let cp = map_of lookup (normalize_image_key (path entry));
          (date0, derived0) = extract_exif_metadata py (read_exif (path entry))
      in \<lparr> src = path entry,
           ext = lower (snd (splitext (path entry))),
           original_name = basename (path entry),
           acquisition_date = choose_acquisition_date py date0 cp,
           derived = apply_csv_overrides derived0 cp,
           mtime = entry_mtime entry,
           csv_pose = cp \<rparr>)"

definition build_records ::
  "stdlib \<Rightarrow> (string \<Rightarrow> exif_tags) \<Rightarrow> image_entry list \<Rightarrow> pose_lookup \<Rightarrow> image_record list" where
  "build_records py read_exif image_entries lookup =
     map (build_record py read_exif lookup) image_entries"

section \<open>processing.py: rows, payloads and descriptors\<close>

definition build_pose_entry :: "image_record \<Rightarrow> int \<Rightarrow> string \<Rightarrow> py_dict" where
  "build_pose_entry info frame_index image_name =
     (let gps_info = (case gps (derived info) of None \<Rightarrow> [] | Some g \<Rightarrow> g);
          cp = csv_pose info;
          ts = py_or (py_or (pose_str cp timestamp) (dict_get gps_info ''timestamp_utc''))
                     (opt_str (datetime_original (derived info)))
      in [(''frame_index'', PInt frame_index),
          (''image_name'', PStr image_name),
          (''timestamp'', ts),
          (''gps_latitude'', dict_get gps_info ''latitude_deg''),
          (''gps_longitude'', dict_get gps_info ''longitude_deg''),
          (''gps_altitude_m'', dict_get gps_info ''altitude_m''),
          (''heading_deg'', pose_float cp heading_deg),
          (''pitch_deg'', pose_float cp pitch_deg),
          (''roll_deg'', pose_float cp roll_deg)])"

text \<open>constants.py\<close>

definition POSE_DATA_FIELDS :: "string list" where
  "POSE_DATA_FIELDS =
     [''timestamp'', ''gps_latitude'', ''gps_longitude'', ''gps_altitude_m'',
      ''heading_deg'', ''pitch_deg'', ''roll_deg'']"

fun any_populated :: "py_dict \<Rightarrow> string list \<Rightarrow> bool" where
  "any_populated entry [] = False"
| "any_populated entry (key # keys) =
     (let v = dict_get entry key
      in if v \<noteq> PNone \<and> v \<noteq> PStr [] then True else any_populated entry keys)"

definition pose_has_data :: "py_dict \<Rightarrow> bool" where
  "pose_has_data entry = any_populated entry POSE_DATA_FIELDS"

definition build_annotation_payload ::
  "image_record \<Rightarrow> string \<Rightarrow> string \<Rightarrow> string \<Rightarrow> int \<Rightarrow> pyval" where
  "build_annotation_payload info acquisition_id sequence_id sensor_id frame_index =
     (let gps_info = gps (derived info);
          cp = csv_pose info
      in prune_none (PDict
          [(''previous_name'', PStr (original_name info)),
           (''acquisition_id'', PStr acquisition_id),
           (''sequence_id'', PStr sequence_id),
           (''sensor_id'', PStr sensor_id),
           (''frame_index'', PInt frame_index),
           (''capture'', PDict
              [(''datetime_original'', opt_str (datetime_original (derived info))),
               (''gps_timestamp_utc'',
                  (case gps_info of
                     None \<Rightarrow> PNone
                   | Some g \<Rightarrow> if g = [] then PNone else dict_get g ''timestamp_utc''))]),
           (''gps'', opt_dict gps_info),
           (''pose'', PDict
              [(''source'', (case cp of None \<Rightarrow> PNone | Some row \<Rightarrow> PStr ''csv'')),
               (''timestamp'', pose_str cp timestamp),
               (''gps_seconds'', pose_float cp gps_seconds),
               (''gps_latitude'', pose_float cp gps_latitude),
               (''gps_longitude'', pose_float cp gps_longitude),
               (''gps_altitude_m'', pose_float cp gps_altitude_m),
               (''heading_deg'', pose_float cp heading_deg),
               (''pitch_deg'', pose_float cp pitch_deg),
               (''roll_deg'', pose_float cp roll_deg)])]))"

fun build_intrinsics :: "image_record list \<Rightarrow> string \<Rightarrow> pyval option" where
  "build_intrinsics [] sensor_id = None"
| "build_intrinsics (r # records) sensor_id =
     (let cam = (case camera (derived r) of None \<Rightarrow> [] | Some c \<Rightarrow> c)
      in if cam = [] then build_intrinsics records sensor_id
         else
           (let intrinsics = prune_items
                  [(''sensor_id'', PStr sensor_id),
                   (''camera_make'', dict_get cam ''make''),
                   (''camera_model'', dict_get cam ''model''),
                   (''serial_number'', dict_get cam ''serial_number''),
                   (''software'', dict_get cam ''software''),
                   (''focal_length_mm'', dict_get cam ''focal_length_mm''),
                   (''focal_length_35mm'', dict_get cam ''focal_length_35mm''),
                   (''f_number'', dict_get cam ''f_number'')]
            in if length intrinsics > 1 then Some (PDict intrinsics)
               else build_intrinsics records sensor_id))"

fun build_coordinate_systems :: "image_record list \<Rightarrow> pyval option" where
  "build_coordinate_systems [] = None"
| "build_coordinate_systems (r # records) =
     (case gps (derived r) of
        None \<Rightarrow> build_coordinate_systems records
      | Some gps_info \<Rightarrow>
          if gps_info = [] then build_coordinate_systems records
          else if dict_get gps_info ''latitude_deg'' = PNone
                  \<or> dict_get gps_info ''longitude_deg'' = PNone
          then build_coordinate_systems records
          else
            (let position =
                   [(''reference'', PStr ''WGS84''),
                    (''epsg'', PInt 4326),
                    (''units'', PStr ''degrees''),
                    (''altitude_units'', PStr ''meters'')];
                 position =
                   (if truthy (dict_get gps_info ''altitude_ref'')
                    then dict_set position ''altitude_reference'' (dict_get gps_info ''altitude_ref'')
                    else position)
             in Some (PDict [(''position'', PDict position), (''source'', PStr ''EXIF GPS'')])))"

text \<open>
  The first loop of \<open>build_geojson_track\<close>, with its two accumulators: the positions
  (longitude, latitude, optional altitude) and the count of positions with an altitude.
\<close>

fun track_positions ::
  "stdlib \<Rightarrow> py_dict list \<Rightarrow> (real \<times> real \<times> real option) list \<times> nat
     \<Rightarrow> (real \<times> real \<times> real option) list \<times> nat" where
  "track_positions py [] acc = acc"
| "track_positions py (row # rows) acc =
     (let lat = parse_float py (dict_get row ''gps_latitude'');
          lon = parse_float py (dict_get row ''gps_longitude'');
          alt = parse_float py (dict_get row ''gps_altitude_m'')
      in if lat = None \<or> lon = None then track_positions py rows acc
         else track_positions py rows
                (fst acc @ [(the lon, the lat, alt)],
                 if alt \<noteq> None then snd acc + 1 else snd acc))"

text \<open>The second loop: one coordinate list per position.\<close>

definition coordinate :: "bool \<Rightarrow> real \<times> real \<times> real option \<Rightarrow> pyval" where
  "coordinate include_alt p =
     (case p of (lon, lat, alt) \<Rightarrow>
        (case alt of
           Some a \<Rightarrow> if include_alt then PList [PFloat lon, PFloat lat, PFloat a]
                     else PList [PFloat lon, PFloat lat]
         | None \<Rightarrow> PList [PFloat lon, PFloat lat]))"

definition build_geojson_track ::
  "stdlib \<Rightarrow> py_dict list \<Rightarrow> string \<Rightarrow> string \<Rightarrow> string \<Rightarrow> pyval option" where
  "build_geojson_track py rows acquisition_id sequence_id sensor_id =
     (let (positions, alt_count) = track_positions py rows ([], 0)
      in if length positions < 2 then None
         else
           (let include_alt = (alt_count = length positions);
                coordinates = map (coordinate include_alt) positions;
                properties =
                  [(''acquisition_id'', PStr acquisition_id),
                   (''sequence_id'', PStr sequence_id),
                   (''sensor_id'', PStr sensor_id),
                   (''point_count'', PInt (int (length coordinates)))];
                properties =
                  (if include_alt then dict_set properties ''altitude_units'' (PStr ''meters'')
                   else properties)
            in Some (PDict
                 [(''type'', PStr ''FeatureCollection''),
                  (''features'', PList
                     [PDict
                        [(''type'', PStr ''Feature''),
                         (''properties'', PDict properties),
                         (''geometry'', PDict
                            [(''type'', PStr ''LineString''),
                             (''coordinates'', PList coordinates)])]])])))"

section \<open>processing.py: sequences and frames\<close>

text \<open>
  \<open>//\<close> and \<open>%\<close> of Python are \<open>div\<close> and \<open>mod\<close> on \<open>int\<close>. A zero \<open>max_per_seq\<close>
  raises in Python; \<open>process_acquisition\<close> below accounts for it.
\<close>

definition sequence_ids :: "int \<Rightarrow> int \<Rightarrow> string \<times> string \<times> int" where
  "sequence_ids index max_per_seq =
     (let sequence_index = (index - 1) div max_per_seq + 1;
          frame_index = (index - 1) mod max_per_seq + 1;
          sequence_id = ''S'' @ format_0d 3 sequence_index;
          frame_id = format_0d 6 frame_index
      in (sequence_id, frame_id, frame_index))"

text \<open>The base name of every file of a frame.\<close>

definition naming_key :: "string \<Rightarrow> string \<Rightarrow> string \<Rightarrow> string \<Rightarrow> string" where
  "naming_key acquisition_id sequence_id sensor_id frame_id =
     acquisition_id @ ''_'' @ sequence_id @ ''_'' @ sensor_id @ ''_'' @ frame_id"

text \<open>\<open>enumerate(xs, start=i)\<close>\<close>

fun enumerate_from :: "int \<Rightarrow> 'a list \<Rightarrow> (int \<times> 'a) list" where
  "enumerate_from i [] = []"
| "enumerate_from i (x # xs) = (i, x) # enumerate_from (i + 1) xs"

text \<open>\<open>d.setdefault(k, []).append(v)\<close> on an insertion-ordered dict of lists\<close>

fun setdefault_append :: "'k \<Rightarrow> 'v \<Rightarrow> ('k \<times> 'v list) list \<Rightarrow> ('k \<times> 'v list) list" where
  "setdefault_append k v [] = [(k, [v])]"
| "setdefault_append k v (kvs # d) =
     (if fst kvs = k then (k, snd kvs @ [v]) # d else kvs # setdefault_append k v d)"

text \<open>What a run leaves on disk: copied files, JSON documents and trajectory tables.\<close>

datatype fs_write =
    CopyFile string string
  | WriteJson string pyval
  | WriteCsv string "py_dict list"

datatype exn =
    OSError string
  | ValueError string
  | ZeroDivisionError string
  | OtherError string

text \<open>
  The state that the frame loop of \<open>process_acquisition\<close> updates. Directory creation
  and the progress lines on standard output are not part of the model.
\<close>

record acq_state =
  copied :: nat
  poses_by_sequence :: "(string \<times> py_dict list) list"
  sequences_with_pose :: "string set"
  written :: "fs_write list"

definition render_frame ::
  "string \<Rightarrow> string \<Rightarrow> int \<Rightarrow> string \<Rightarrow> int \<times> image_record \<Rightarrow> acq_state \<Rightarrow> acq_state" where
  "render_frame acquisition_id sensor_id max_per_seq output_dir frame st =
     (case frame of (idx, info) \<Rightarrow>
       (case sequence_ids idx max_per_seq of (sequence_id, frame_id, frame_index) \<Rightarrow>
         (let acquisition_root = path_join output_dir acquisition_id;
              seq_img_dir = path_join (path_join acquisition_root ''01_images'') sequence_id;
              seq_ann_dir = path_join (path_join acquisition_root ''04_annotations'') sequence_id;
              new_base = naming_key acquisition_id sequence_id sensor_id frame_id;
              dest_path = path_join seq_img_dir (new_base @ ext info);
              annotation_path = path_join seq_ann_dir (new_base @ ''.json'');
              annotation_payload =
                build_annotation_payload info acquisition_id sequence_id sensor_id frame_index;
              pose_entry = build_pose_entry info frame_index (basename dest_path)
          in st\<lparr> copied := copied st + 1,
                 poses_by_sequence :=
                   setdefault_append sequence_id pose_entry (poses_by_sequence st),
                 sequences_with_pose :=
                   (if pose_has_data pose_entry
                    then insert sequence_id (sequences_with_pose st)
                    else sequences_with_pose st),
                 written := written st
                   @ [CopyFile (src info) dest_path,
                      WriteJson annotation_path annotation_payload] \<rparr>)))"

text \<open>The loop over \<open>poses_by_sequence.items()\<close> that closes \<open>process_acquisition\<close>.\<close>

fun emit_trajectories ::
  "stdlib \<Rightarrow> string \<Rightarrow> string \<Rightarrow> string \<Rightarrow> string set
     \<Rightarrow> (string \<times> py_dict list) list \<Rightarrow> fs_write list" where
  "emit_trajectories py acquisition_id sensor_id poses_root with_pose [] = []"
| "emit_trajectories py acquisition_id sensor_id poses_root with_pose (item # items) =
     (case item of (sequence_id, rows) \<Rightarrow>
        (if sequence_id \<notin> with_pose then []
         else
           WriteCsv (path_join poses_root (sequence_id @ ''_trajectory.csv'')) rows
           # (case build_geojson_track py rows acquisition_id sequence_id sensor_id of
                None \<Rightarrow> []
              | Some payload \<Rightarrow>
                  if truthy payload
                  then [WriteJson (path_join poses_root (sequence_id @ ''_trajectory.geojson''))
                          payload]
                  else []))
        @ emit_trajectories py acquisition_id sensor_id poses_root with_pose items)"

definition sorted_records :: "image_record list \<Rightarrow> image_record list" where
  "sorted_records records = sort_key record_sort_key records"

definition frame_loop ::
  "string \<Rightarrow> string \<Rightarrow> int \<Rightarrow> string \<Rightarrow> image_record list \<Rightarrow> acq_state \<Rightarrow> acq_state" where
  "frame_loop acquisition_id sensor_id max_per_seq output_dir records st =
     fold (render_frame acquisition_id sensor_id max_per_seq output_dir)
          (enumerate_from 1 records) st"

definition descriptor_writes :: "string \<Rightarrow> image_record list \<Rightarrow> string \<Rightarrow> fs_write list" where
  "descriptor_writes acquisition_root records sensor_id =
     (case build_coordinate_systems records of
        None \<Rightarrow> []
      | Some cs \<Rightarrow>
          if truthy cs
          then [WriteJson (path_join (path_join acquisition_root ''02_poses'')
                             ''coordinate_systems.json'') cs]
          else [])
     @ (case build_intrinsics records sensor_id of
          None \<Rightarrow> []
        | Some intr \<Rightarrow>
            if truthy intr
            then [WriteJson (path_join (path_join acquisition_root ''03_calibration'')
                               ''intrinsics.json'') intr]
            else [])"

text \<open>
  \<open>process_acquisition\<close> returns the number of copied files; the model returns the files
  written with it. With records to process and \<open>max_per_seq = 0\<close>, \<open>sequence_ids\<close> raises
  at the first frame.
\<close>

definition process_acquisition ::
  "stdlib \<Rightarrow> string \<Rightarrow> image_record list \<Rightarrow> string \<Rightarrow> int \<Rightarrow> string
     \<Rightarrow> exn + nat \<times> fs_write list" where
  "process_acquisition py acquisition_id records sensor_id max_per_seq output_dir =
     (let records = sorted_records records;
          acquisition_root = path_join output_dir acquisition_id;
          poses_root = path_join acquisition_root ''02_poses''
      in if records \<noteq> [] \<and> max_per_seq = 0
         then Inl (ZeroDivisionError ''integer division or modulo by zero'')
         else
           (let st = frame_loop acquisition_id sensor_id max_per_seq output_dir records
                       \<lparr> copied = 0, poses_by_sequence = [], sequences_with_pose = {},
                         written = descriptor_writes acquisition_root records sensor_id \<rparr>
            in Inr (copied st,
                    written st
                    @ emit_trajectories py acquisition_id sensor_id poses_root
                        (sequences_with_pose st) (poses_by_sequence st))))"

text \<open>
  The grouping loop of \<open>process_records_by_acquisition\<close>, and the loop over the groups
  in the order of the dict. Copying point-cloud files is not part of the model.
\<close>

definition acquisition_id_of :: "string \<Rightarrow> image_record \<Rightarrow> string" where
  "acquisition_id_of region r = acquisition_date r @ ''-'' @ region"

definition group_records ::
  "string \<Rightarrow> image_record list \<Rightarrow> (string \<times> image_record list) list" where
  "group_records region records =
     fold (\<lambda>r grouped. setdefault_append (acquisition_id_of region r) r grouped) records []"

fun process_groups ::
  "stdlib \<Rightarrow> string \<Rightarrow> int \<Rightarrow> string \<Rightarrow> (string \<times> image_record list) list
     \<Rightarrow> nat \<times> fs_write list \<Rightarrow> exn + nat \<times> fs_write list" where
  "process_groups py sensor_id max_per_seq output_dir [] acc = Inr acc"
| "process_groups py sensor_id max_per_seq output_dir (g # groups) acc =
     (case process_acquisition py (fst g) (snd g) sensor_id max_per_seq output_dir of
        Inl e \<Rightarrow> Inl e
      | Inr res \<Rightarrow>
          process_groups py sensor_id max_per_seq output_dir groups
            (fst acc + fst res, snd acc @ snd res))"

definition process_records_by_acquisition ::
  "stdlib \<Rightarrow> image_record list \<Rightarrow> string \<Rightarrow> string \<Rightarrow> int \<Rightarrow> string
     \<Rightarrow> exn + (nat \<times> nat) \<times> fs_write list" where
  "process_records_by_acquisition py records region sensor_id max_per_seq output_dir =
     (let grouped = group_records region records
      in case process_groups py sensor_id max_per_seq output_dir grouped (0, []) of
           Inl e \<Rightarrow> Inl e
         | Inr res \<Rightarrow> Inr ((fst res, length grouped), snd res))"

section \<open>cli.py: the two kinds of run\<close>

text \<open>
  What a run reads from outside the program: the pose loader (\<open>load_pose_csv\<close> applied
  to the absolute path and the epoch, with the exception it raises, if any), the
  searches of the file system, the decoded tags of every image, and the lines typed at
  the prompts.
\<close>

record world =
  load_pose_csv :: "string \<Rightarrow> string \<Rightarrow> exn + pose_lookup"
  find_pose_csv_path :: "string \<Rightarrow> string option"
  collect_image_entries :: "string \<Rightarrow> image_entry list"
  read_exif :: "string \<Rightarrow> exif_tags"
  find_lidar_paths :: "string \<Rightarrow> string list"
  collect_lidar_paths :: "string option \<Rightarrow> exn + string list"
  find_first_image_path :: "string \<Rightarrow> string option"
  extract_camera_model :: "string \<Rightarrow> string option"
  typed_region :: string
  typed_sensor :: string
  collect_batch_region_sensor :: "exn + (string \<times> string) list"

record acquisition_plan =
  folder :: string
  name :: string
  plan_acquisition_date :: "string option"
  pose_csv_path :: "string option"
  lidar_paths :: "string list"
  default_sensor :: "string option"

record cli_args =
  arg_region :: "string option"
  arg_sensor :: "string option"
  arg_max_per_seq :: int
  arg_pose_csv :: "string option"
  arg_pose_epoch :: string
  arg_lidar_path :: "string option"

definition exn_text :: "exn \<Rightarrow> string" where
  "exn_text e =
     (case e of OSError m \<Rightarrow> m | ValueError m \<Rightarrow> m | ZeroDivisionError m \<Rightarrow> m
      | OtherError m \<Rightarrow> m)"

definition is_OSError :: "exn \<Rightarrow> bool" where
  "is_OSError e = (case e of OSError m \<Rightarrow> True | _ \<Rightarrow> False)"

definition is_ValueError :: "exn \<Rightarrow> bool" where
  "is_ValueError e = (case e of ValueError m \<Rightarrow> True | _ \<Rightarrow> False)"

text \<open>\<open>normalize_token\<close> of common.py\<close>

definition token_char :: "char \<Rightarrow> bool" where
  "token_char c =
     ((CHR ''A'' \<le> c \<and> c \<le> CHR ''Z'') \<or> (CHR ''a'' \<le> c \<and> c \<le> CHR ''z'')
      \<or> is_digit c \<or> c = CHR ''_'' \<or> c = CHR ''-'')"

definition normalize_token :: "string \<Rightarrow> string \<Rightarrow> exn + string" where
  "normalize_token v label =
     (let cleaned = filter token_char (strip v)
      in if cleaned = [] then Inl (ValueError (label @ '' cannot be empty.'')) else Inr cleaned)"

text \<open>
  \<open>date_from_folder_name\<close> of common.py: the first run of eight digits, scanning from the
  left without overlap, that \<open>strptime\<close> accepts as \<open>%Y%m%d\<close>.
\<close>

fun date_from_folder_name :: "stdlib \<Rightarrow> string \<Rightarrow> string option" where
  "date_from_folder_name py s =
     (if length s < 8 then None
      else if list_all is_digit (take 8 s)
      then (case strptime_ymd py ''%Y%m%d'' (take 8 s) of
              Some code \<Rightarrow> Some (take 8 s)
            | None \<Rightarrow> date_from_folder_name py (drop 8 s))
      else date_from_folder_name py (tl s))"

declare date_from_folder_name.simps [simp del]

text \<open>
  The acquisition date that \<open>build_plans\<close> stores in a plan:
  \<open>folder_date or sample_date\<close>.
\<close>

definition plan_date :: "stdlib \<Rightarrow> world \<Rightarrow> string \<Rightarrow> string \<Rightarrow> string option" where
  "plan_date py w folder_name sample_image =
     str_or (date_from_folder_name py folder_name)
            (Some (fst (extract_exif_metadata py (read_exif w sample_image))))"

text \<open>
  \<open>load_pose_lookup\<close>: the result, with the lines it prints on standard error.
\<close>

definition load_pose_lookup ::
  "world \<Rightarrow> string option \<Rightarrow> string \<Rightarrow> bool \<Rightarrow> string option
     \<Rightarrow> string list \<times> (exn + pose_lookup)" where
  "load_pose_lookup w p epoch soft_fail label =
     (case p of
        None \<Rightarrow> ([], Inr [])
      | Some pth \<Rightarrow>
          if pth = [] then ([], Inr [])
          else
            (case load_pose_csv w pth epoch of
               Inr lookup \<Rightarrow> ([], Inr lookup)
             | Inl e \<Rightarrow>
                 if is_OSError e \<or> is_ValueError e
                 then
                   (if soft_fail
                    then
                      ([case str_or label None of
                          Some l \<Rightarrow> ''Failed to read pose CSV '' @ l @ '': '' @ exn_text e
                        | None \<Rightarrow> ''Failed to read pose CSV: '' @ exn_text e],
                       Inr [])
                    else ([], Inl e))
                 else ([], Inl e)))"

definition is_auto_value :: "string option \<Rightarrow> bool" where
  "is_auto_value v =
     (case v of None \<Rightarrow> False | Some s \<Rightarrow> s \<noteq> [] \<and> lower (strip s) = ''auto'')"

definition resolve_region :: "world \<Rightarrow> string option \<Rightarrow> exn + string" where
  "resolve_region w raw =
     normalize_token (case str_or raw None of Some r \<Rightarrow> r | None \<Rightarrow> typed_region w)
       ''Region''"

definition resolve_sensor_id ::
  "world \<Rightarrow> string option \<Rightarrow> string option \<Rightarrow> bool \<Rightarrow> exn + string" where
  "resolve_sensor_id w raw dflt allow_prompt =
     (case str_or raw None of
        Some r \<Rightarrow> normalize_token r ''Sensor ID''
      | None \<Rightarrow>
          (case str_or dflt None of
             Some d \<Rightarrow>
               if allow_prompt
               then normalize_token
                      (if strip (typed_sensor w) = [] then d else strip (typed_sensor w))
                      ''Sensor ID''
               else normalize_token d ''Sensor ID''
           | None \<Rightarrow>
               if \<not> allow_prompt
               then Inl (ValueError ''Sensor ID missing and no default sensor found in metadata.'')
               else normalize_token (typed_sensor w) ''Sensor ID''))"

text \<open>
  The result of a run: the exit status, the lines on standard error and the files
  written; or the exception that ends it when nothing catches it.
\<close>

type_synonym run_result = "exn + int \<times> string list \<times> fs_write list"

definition run_single_acquisition ::
  "stdlib \<Rightarrow> world \<Rightarrow> string \<Rightarrow> string \<Rightarrow> cli_args \<Rightarrow> run_result" where
  "run_single_acquisition py w input_dir output_dir args =
     (case resolve_region w (arg_region args) of
        Inl e \<Rightarrow> if is_ValueError e then Inr (1, [exn_text e], []) else Inl e
      | Inr region \<Rightarrow>
         (let pose_path =
                (if is_auto_value (arg_pose_csv args) then find_pose_csv_path w input_dir
                 else arg_pose_csv args)
          in case load_pose_lookup w pose_path (arg_pose_epoch args) False None of
            (errs, Inl e) \<Rightarrow>
              if is_OSError e \<or> is_ValueError e
              then Inr (1, errs @ [''Failed to read pose CSV: '' @ exn_text e], [])
              else Inl e
          | (errs, Inr lookup) \<Rightarrow>
             (case (if is_auto_value (arg_lidar_path args)
                    then Inr (find_lidar_paths w input_dir)
                    else collect_lidar_paths w (arg_lidar_path args)) of
                Inl e \<Rightarrow>
                  if is_OSError e \<or> is_ValueError e then Inr (1, errs @ [exn_text e], [])
                  else Inl e
              | Inr lidar \<Rightarrow>
                 (let sample_image = find_first_image_path w input_dir;
                      dflt =
                        (case sample_image of
                           None \<Rightarrow> None
                         | Some img \<Rightarrow> if img = [] then None else extract_camera_model w img);
                      sensor_arg =
                        (if is_auto_value (arg_sensor args) then None else arg_sensor args)
                  in case resolve_sensor_id w sensor_arg dflt
                            (\<not> is_auto_value (arg_sensor args)) of
                       Inl e \<Rightarrow>
                         if is_ValueError e then Inr (1, errs @ [exn_text e], []) else Inl e
                     | Inr sensor_id \<Rightarrow>
                        (let image_entries = collect_image_entries w input_dir
                         in if image_entries = [] then Inr (0, errs, [])
                            else
                              (let records =
                                     build_records py (read_exif w) image_entries lookup
                               in if records = [] then Inr (0, errs, [])
                                  else
                                    (case process_records_by_acquisition py records region
                                            sensor_id (arg_max_per_seq args) output_dir of
                                       Inl e \<Rightarrow> Inl e
                                     | Inr res \<Rightarrow> Inr (0, errs, snd res))))))))"

text \<open>
  The loop of \<open>run_multi_acquisition\<close> over \<open>zip(plans, batch_entries, strict=True)\<close>,
  which raises \<open>ValueError\<close> when one list ends before the other.
\<close>

fun multi_loop ::
  "stdlib \<Rightarrow> world \<Rightarrow> string \<Rightarrow> int \<Rightarrow> string \<Rightarrow> acquisition_plan list
     \<Rightarrow> (string \<times> string) list \<Rightarrow> string list \<times> fs_write list
     \<Rightarrow> exn + string list \<times> fs_write list" where
  "multi_loop py w pose_epoch max_per_seq output_dir [] [] acc = Inr acc"
| "multi_loop py w pose_epoch max_per_seq output_dir (plan # plans) (entry # entries) acc =
     (case load_pose_lookup w (pose_csv_path plan) pose_epoch True (pose_csv_path plan) of
        (errs, Inl e) \<Rightarrow> Inl e
      | (errs, Inr lookup) \<Rightarrow>
         (let image_entries = collect_image_entries w (folder plan)
          in if image_entries = []
             then multi_loop py w pose_epoch max_per_seq output_dir plans entries
                    (fst acc @ errs, snd acc)
             else
               (let records = build_records py (read_exif w) image_entries lookup
                in if records = []
                   then multi_loop py w pose_epoch max_per_seq output_dir plans entries
                          (fst acc @ errs, snd acc)
                   else
                     (case process_records_by_acquisition py records (fst entry) (snd entry)
                             max_per_seq output_dir of
                        Inl e \<Rightarrow> Inl e
                      | Inr res \<Rightarrow>
                          multi_loop py w pose_epoch max_per_seq output_dir plans entries
                            (fst acc @ errs, snd acc @ snd res)))))"
| "multi_loop py w pose_epoch max_per_seq output_dir [] (entry # entries) acc =
     Inl (ValueError ''zip() argument 2 is longer than argument 1'')"
| "multi_loop py w pose_epoch max_per_seq output_dir (plan # plans) [] acc =
     Inl (ValueError ''zip() argument 2 is shorter than argument 1'')"

definition run_multi_acquisition ::
  "stdlib \<Rightarrow> world \<Rightarrow> acquisition_plan list \<Rightarrow> string \<Rightarrow> int \<Rightarrow> string \<Rightarrow> run_result" where
  "run_multi_acquisition py w plans pose_epoch max_per_seq output_dir =
     (case collect_batch_region_sensor w of
        Inl e \<Rightarrow> if is_ValueError e then Inr (1, [exn_text e], []) else Inl e
      | Inr batch_entries \<Rightarrow>
          (case multi_loop py w pose_epoch max_per_seq output_dir plans batch_entries ([], []) of
             Inl e \<Rightarrow> Inl e
           | Inr res \<Rightarrow> Inr (0, fst res, snd res)))"

section \<open>Notions used in the statements\<close>

text \<open>The number that a string of decimal digits denotes.\<close>

definition undec :: "string \<Rightarrow> nat" where
  "undec s = foldl (\<lambda>acc c. 10 * acc + (of_char c - 48)) 0 s"

text \<open>The distinct elements of a list, in the order of their first occurrence.\<close>

definition first_seen :: "'a list \<Rightarrow> 'a list" where
  "first_seen xs = rev (remdups (rev xs))"

text \<open>The sequence that the frame loop puts a frame in, and the row it appends for it.\<close>

definition frame_sequence_id :: "int \<Rightarrow> int \<times> image_record \<Rightarrow> string" where
  "frame_sequence_id max_per_seq frame = fst (sequence_ids (fst frame) max_per_seq)"

definition frame_row ::
  "string \<Rightarrow> string \<Rightarrow> int \<Rightarrow> string \<Rightarrow> int \<times> image_record \<Rightarrow> py_dict" where
  "frame_row acquisition_id sensor_id max_per_seq output_dir frame =
     (case sequence_ids (fst frame) max_per_seq of (sequence_id, frame_id, frame_index) \<Rightarrow>
        build_pose_entry (snd frame) frame_index
          (basename
             (path_join
                (path_join (path_join (path_join output_dir acquisition_id) ''01_images'')
                   sequence_id)
                (naming_key acquisition_id sequence_id sensor_id frame_id @ ext (snd frame)))))"

text \<open>The state of \<open>process_acquisition\<close> when its frame loop ends.\<close>

definition rendered ::
  "string \<Rightarrow> image_record list \<Rightarrow> string \<Rightarrow> int \<Rightarrow> string \<Rightarrow> acq_state" where
  "rendered acquisition_id records sensor_id max_per_seq output_dir =
     frame_loop acquisition_id sensor_id max_per_seq output_dir (sorted_records records)
       \<lparr> copied = 0, poses_by_sequence = [], sequences_with_pose = {},
         written = descriptor_writes (path_join output_dir acquisition_id)
                     (sorted_records records) sensor_id \<rparr>"

text \<open>
  \<open>poses_by_sequence\<close> in that state: the rows of every sequence, in the order the
  sequences were opened.
\<close>

definition sequence_rows ::
  "string \<Rightarrow> image_record list \<Rightarrow> string \<Rightarrow> int \<Rightarrow> string \<Rightarrow> (string \<times> py_dict list) list" where
  "sequence_rows acquisition_id records sensor_id max_per_seq output_dir =
     poses_by_sequence (rendered acquisition_id records sensor_id max_per_seq output_dir)"

text \<open>The two files that the frame loop writes for a frame.\<close>

definition frame_writes ::
  "string \<Rightarrow> string \<Rightarrow> int \<Rightarrow> string \<Rightarrow> int \<times> image_record \<Rightarrow> fs_write list" where
  "frame_writes acquisition_id sensor_id max_per_seq output_dir frame =
     (case sequence_ids (fst frame) max_per_seq of (sequence_id, frame_id, frame_index) \<Rightarrow>
        [CopyFile (src (snd frame))
           (path_join
              (path_join (path_join (path_join output_dir acquisition_id) ''01_images'')
                 sequence_id)
              (naming_key acquisition_id sequence_id sensor_id frame_id @ ext (snd frame))),
         WriteJson
           (path_join
              (path_join (path_join (path_join output_dir acquisition_id) ''04_annotations'')
                 sequence_id)
              (naming_key acquisition_id sequence_id sensor_id frame_id @ ''.json''))
           (build_annotation_payload (snd frame) acquisition_id sequence_id sensor_id
              frame_index)])"

text \<open>The files of a sequence's trajectory, and whether a run wrote a file.\<close>

definition trajectory_csv_path :: "string \<Rightarrow> string \<Rightarrow> string \<Rightarrow> string" where
  "trajectory_csv_path output_dir acquisition_id sequence_id =
     path_join (path_join (path_join output_dir acquisition_id) ''02_poses'')
       (sequence_id @ ''_trajectory.csv'')"

definition trajectory_geojson_path :: "string \<Rightarrow> string \<Rightarrow> string \<Rightarrow> string" where
  "trajectory_geojson_path output_dir acquisition_id sequence_id =
     path_join (path_join (path_join output_dir acquisition_id) ''02_poses'')
       (sequence_id @ ''_trajectory.geojson'')"

fun csv_at :: "string \<Rightarrow> fs_write \<Rightarrow> bool" where
  "csv_at p (WriteCsv q rows) = (q = p)"
| "csv_at p (WriteJson q doc) = False"
| "csv_at p (CopyFile q r) = False"

fun json_at :: "string \<Rightarrow> fs_write \<Rightarrow> bool" where
  "json_at p (WriteJson q doc) = (q = p)"
| "json_at p (WriteCsv q rows) = False"
| "json_at p (CopyFile q r) = False"

definition csv_written :: "fs_write list \<Rightarrow> string \<Rightarrow> bool" where
  "csv_written ws p = list_ex (csv_at p) ws"

definition json_written :: "fs_write list \<Rightarrow> string \<Rightarrow> bool" where
  "json_written ws p = list_ex (json_at p) ws"

text \<open>
  The rows of a trajectory that give both a latitude and a longitude, and whether a row
  gives an altitude.
\<close>

definition has_position :: "stdlib \<Rightarrow> py_dict \<Rightarrow> bool" where
  "has_position py row =
     (parse_float py (dict_get row ''gps_latitude'') \<noteq> None
      \<and> parse_float py (dict_get row ''gps_longitude'') \<noteq> None)"

definition has_altitude :: "stdlib \<Rightarrow> py_dict \<Rightarrow> bool" where
  "has_altitude py row = (parse_float py (dict_get row ''gps_altitude_m'') \<noteq> None)"

definition qualifying :: "stdlib \<Rightarrow> py_dict list \<Rightarrow> py_dict list" where
  "qualifying py rows = filter (has_position py) rows"

text \<open>The position that \<open>build_geojson_track\<close> reads from a qualifying row.\<close>

definition row_position :: "stdlib \<Rightarrow> py_dict \<Rightarrow> real \<times> real \<times> real option" where
  "row_position py row =
     (the (parse_float py (dict_get row ''gps_longitude'')),
      the (parse_float py (dict_get row ''gps_latitude'')),
      parse_float py (dict_get row ''gps_altitude_m''))"

text \<open>
  The track of the specification: the qualifying rows in row order, with the altitude
  in every coordinate when every qualifying row has one, and in none otherwise.
\<close>

definition track_coordinates :: "stdlib \<Rightarrow> py_dict list \<Rightarrow> pyval list" where
  "track_coordinates py rows =
     map (\<lambda>row.
            PList ([PFloat (the (parse_float py (dict_get row ''gps_longitude''))),
                    PFloat (the (parse_float py (dict_get row ''gps_latitude'')))]
                   @ (if list_all (has_altitude py) (qualifying py rows)
                      then [PFloat (the (parse_float py (dict_get row ''gps_altitude_m'')))]
                      else [])))
         (qualifying py rows)"

definition track_document ::
  "stdlib \<Rightarrow> py_dict list \<Rightarrow> string \<Rightarrow> string \<Rightarrow> string \<Rightarrow> pyval" where
  "track_document py rows acquisition_id sequence_id sensor_id =
     PDict
       [(''type'', PStr ''FeatureCollection''),
        (''features'', PList
           [PDict
              [(''type'', PStr ''Feature''),
               (''properties'', PDict
                  ([(''acquisition_id'', PStr acquisition_id),
                    (''sequence_id'', PStr sequence_id),
                    (''sensor_id'', PStr sensor_id),
                    (''point_count'', PInt (int (length (qualifying py rows))))]
                   @ (if list_all (has_altitude py) (qualifying py rows)
                      then [(''altitude_units'', PStr ''meters'')] else []))),
               (''geometry'', PDict
                  [(''type'', PStr ''LineString''),
                   (''coordinates'', PList (track_coordinates py rows))])]])]"

text \<open>The identifier of the sequence with a given index.\<close>

definition sequence_name :: "int \<Rightarrow> string" where
  "sequence_name k = ''S'' @ format_0d 3 k"

text \<open>
  The claim that a sequence identifier is \<open>S\<close> followed by exactly three digits.
\<close>

definition three_digit_sequence_id :: "string \<Rightarrow> bool" where
  "three_digit_sequence_id s =
     (case s of [] \<Rightarrow> False
      | c # ds \<Rightarrow> c = CHR ''S'' \<and> length ds = 3 \<and> list_all is_digit ds)"

section \<open>The order and the grouping, in the words of the specification\<close>

text \<open>The epoch seconds of the pose row attached to a record, when it has one.\<close>

definition pose_epoch :: "image_record \<Rightarrow> real option" where
  "pose_epoch r = (case csv_pose r of None \<Rightarrow> None | Some row \<Rightarrow> gps_seconds row)"

text \<open>
  The order of the specification: records with an epoch value first, by that value; the
  others after, by modification time; ties by source path.
\<close>

definition sorts_before :: "image_record \<Rightarrow> image_record \<Rightarrow> bool" where
  "sorts_before r r' =
     (case pose_epoch r of
        Some e \<Rightarrow>
          (case pose_epoch r' of
             Some e' \<Rightarrow> e < e' \<or> (e = e' \<and> src r \<le> src r')
           | None \<Rightarrow> True)
      | None \<Rightarrow>
          (case pose_epoch r' of
             Some e' \<Rightarrow> False
           | None \<Rightarrow> mtime r < mtime r' \<or> (mtime r = mtime r' \<and> src r \<le> src r')))"

text \<open>The identifiers given to the records of an acquisition, in rendering order.\<close>

definition assignment :: "int \<Rightarrow> image_record list \<Rightarrow> (string \<times> string \<times> string) list" where
  "assignment max_per_seq records =
     map (\<lambda>frame. (src (snd frame),
                    fst (sequence_ids (fst frame) max_per_seq),
                    fst (snd (sequence_ids (fst frame) max_per_seq))))
         (enumerate_from 1 (sorted_records records))"

text \<open>
  The file copies among the files written, in the order they were made, each with its
  source and its destination; and the destination of an image of a sequence.
\<close>

fun copies :: "fs_write list \<Rightarrow> (string \<times> string) list" where
  "copies [] = []"
| "copies (CopyFile from_path to_path # ws) = (from_path, to_path) # copies ws"
| "copies (WriteJson p doc # ws) = copies ws"
| "copies (WriteCsv p rows # ws) = copies ws"

definition image_path ::
  "string \<Rightarrow> string \<Rightarrow> string \<Rightarrow> string \<Rightarrow> string \<Rightarrow> string \<Rightarrow> string" where
  "image_path output_dir acquisition_id sensor_id sequence_id frame_id extension =
     path_join
       (path_join (path_join (path_join output_dir acquisition_id) ''01_images'') sequence_id)
       (naming_key acquisition_id sequence_id sensor_id frame_id @ extension)"

text \<open>The files that \<open>process_acquisition\<close> writes when it returns.\<close>

definition acquisition_writes ::
  "stdlib \<Rightarrow> string \<Rightarrow> image_record list \<Rightarrow> string \<Rightarrow> int \<Rightarrow> string \<Rightarrow> fs_write list" where
  "acquisition_writes py acquisition_id records sensor_id max_per_seq output_dir =
     (case process_acquisition py acquisition_id records sensor_id max_per_seq output_dir of
        Inl e \<Rightarrow> []
      | Inr res \<Rightarrow> snd res)"

text \<open>\<open>value[key]\<close> read from a JSON document: \<open>None\<close> when the key or the dict is missing.\<close>

definition py_get :: "pyval \<Rightarrow> string \<Rightarrow> pyval" where
  "py_get v k = (case v of PDict d \<Rightarrow> dict_get d k | _ \<Rightarrow> PNone)"

text \<open>The GPS sub-tree of a record, as \<open>derived.get("gps", {})\<close> reads it.\<close>

definition gps_subtree :: "image_record \<Rightarrow> py_dict" where
  "gps_subtree info = (case gps (derived info) of None \<Rightarrow> [] | Some g \<Rightarrow> g)"

text \<open>
  The GPS sub-tree that \<open>apply_csv_overrides\<close> stores when a pose row is attached.
\<close>

definition merged :: "derived_tree \<Rightarrow> pose_row \<Rightarrow> py_dict" where
  "merged d row =
     prune_items
       (override
          (override
             (override
                (override (case gps d of None \<Rightarrow> [] | Some g \<Rightarrow> g)
                   ''latitude_deg'' (opt_float (gps_latitude row)))
                ''longitude_deg'' (opt_float (gps_longitude row)))
             ''altitude_m'' (opt_float (gps_altitude_m row)))
          ''timestamp_utc'' (opt_str (timestamp row)))"

text \<open>The annotation file of a frame.\<close>

definition annotation_path ::
  "string \<Rightarrow> string \<Rightarrow> string \<Rightarrow> string \<Rightarrow> string \<Rightarrow> string" where
  "annotation_path output_dir acquisition_id sensor_id sequence_id frame_id =
     path_join
       (path_join (path_join (path_join output_dir acquisition_id) ''04_annotations'')
          sequence_id)
       (naming_key acquisition_id sequence_id sensor_id frame_id @ ''.json'')"

section \<open>The acquisition date, in the words of the specification\<close>




text \<open>The exit status and the files of a run that returns.\<close>

definition run_status :: "run_result \<Rightarrow> int option" where
  "run_status r = (case r of Inl e \<Rightarrow> None | Inr res \<Rightarrow> Some (fst res))"

definition run_errors :: "run_result \<Rightarrow> string list" where
  "run_errors r = (case r of Inl e \<Rightarrow> [] | Inr res \<Rightarrow> fst (snd res))"

definition run_writes :: "run_result \<Rightarrow> fs_write list" where
  "run_writes r = (case r of Inl e \<Rightarrow> [] | Inr res \<Rightarrow> snd (snd res))"

section \<open>The naming keys of a call\<close>

text \<open>
  The frames that one call of \<open>process_records_by_acquisition\<close> renders, in order: each
  with the identifier of its acquisition group and its position in the sorted group; and
  the naming key that \<open>process_acquisition\<close> gives to a frame.
\<close>

definition rendered_frames ::
  "string \<Rightarrow> image_record list \<Rightarrow> (string \<times> int \<times> image_record) list" where
  "rendered_frames region records =
     concat (map (\<lambda>g. map (Pair (fst g)) (enumerate_from 1 (sorted_records (snd g))))
               (group_records region records))"

definition frame_key :: "string \<Rightarrow> int \<Rightarrow> string \<times> int \<times> image_record \<Rightarrow> string" where
  "frame_key sensor_id max_per_seq fr =
     naming_key (fst fr) (fst (sequence_ids (fst (snd fr)) max_per_seq)) sensor_id
       (fst (snd (sequence_ids (fst (snd fr)) max_per_seq)))"

text \<open>The destination of the image of a frame.\<close>

definition frame_destination ::
  "string \<Rightarrow> string \<Rightarrow> int \<Rightarrow> string \<times> int \<times> image_record \<Rightarrow> string" where
  "frame_destination output_dir sensor_id max_per_seq fr =
     path_join
       (path_join (path_join (path_join output_dir (fst fr)) ''01_images'')
          (fst (sequence_ids (fst (snd fr)) max_per_seq)))
       (frame_key sensor_id max_per_seq fr @ ext (snd (snd fr)))"

section \<open>Example inputs\<close>

text \<open>An image without embedded metadata and without a pose row.\<close>

definition plain_record :: "string \<Rightarrow> string \<Rightarrow> real \<Rightarrow> image_record" where
  "plain_record p date t =
     \<lparr> src = p, ext = ''.jpg'', original_name = basename p, acquisition_date = date,
       derived = \<lparr> datetime_original = None, gps = None, camera = None \<rparr>,
       mtime = t, csv_pose = None \<rparr>"

text \<open>An image whose pose row gives only the epoch seconds.\<close>

definition posed_record :: "string \<Rightarrow> string \<Rightarrow> real \<Rightarrow> real \<Rightarrow> image_record" where
  "posed_record p date t e =
     (plain_record p date t)
       \<lparr> csv_pose := Some \<lparr> file_name = Some (basename p), gps_seconds = Some e,
            timestamp = None, gps_latitude = None, gps_longitude = None,
            gps_altitude_m = None, heading_deg = None, pitch_deg = None, roll_deg = None \<rparr> \<rparr>"

text \<open>
  A stand-in for the parsers of the standard library: it reads one float and the dates
  written as \<open>YYYY:MM:DD\<close>, \<open>YYYY-MM-DD\<close> or \<open>YYYYMMDD\<close>, each under its own format.
\<close>

definition toy_stdlib :: stdlib where
  "toy_stdlib =
     \<lparr> str_to_float = (\<lambda>text. if text = ''1.5'' then Some (3 / 2) else None),
       strptime_ymd = (\<lambda>fmt text.
         if fmt = ''%Y:%m:%d'' \<and> length text = 10 \<and> text ! 4 = CHR '':'' \<and> text ! 7 = CHR '':''
         then Some (filter is_digit text)
         else if fmt = ''%Y-%m-%d'' \<and> length text = 10 \<and> text ! 4 = CHR ''-''
                 \<and> text ! 7 = CHR ''-''
         then Some (filter is_digit text)
         else if fmt = ''%Y%m%d'' \<and> length text = 8 \<and> list_all is_digit text then Some text
         else None) \<rparr>"

text \<open>An image whose embedded metadata gives a latitude and a longitude.\<close>

definition gps_record :: "string \<Rightarrow> string \<Rightarrow> real \<Rightarrow> real \<Rightarrow> real \<Rightarrow> image_record" where
  "gps_record p date t lat lon =
     (plain_record p date t)
       \<lparr> derived := \<lparr> datetime_original = None,
                      gps = Some [(''latitude_deg'', PFloat lat), (''longitude_deg'', PFloat lon)],
                      camera = None \<rparr> \<rparr>"

text \<open>
  An image whose embedded metadata gives a position and two dates, and a pose row that
  gives another position and another date.
\<close>

definition sample_tags :: exif_tags where
  "sample_tags =
     \<lparr> gps_lat = Some 10, gps_lon = Some 20, gps_alt = Some 30,
       gps_alt_ref_label = Some ''above_sea_level'',
       gps_timestamp = Some ''2024-02-02T08:00:00Z'',
       gps_date_stamp = Some ''2024:02:02'',
       dt_text = Some ''2024-02-03T09:00:00'',
       camera_tags = [(''make'', PStr ''Acme''), (''model'', PNone)],
       mtime_code = ''20240303'' \<rparr>"

definition sample_pose :: pose_row where
  "sample_pose =
     \<lparr> file_name = Some ''A.JPG'', gps_seconds = Some 100,
       timestamp = Some ''2024-01-01T10:00:00Z'',
       gps_latitude = Some 46, gps_longitude = Some 6, gps_altitude_m = Some 400,
       heading_deg = Some 90, pitch_deg = None, roll_deg = None \<rparr>"

definition sample_entry :: image_entry where
  "sample_entry = \<lparr> path = ''/in/A.JPG'', entry_mtime = 5 \<rparr>"

text \<open>The record built for that image when the pose row is found under its key.\<close>

definition sample_record :: image_record where
  "sample_record =
     build_record toy_stdlib (\<lambda>p. sample_tags) [(''a'', sample_pose)] sample_entry"

text \<open>
  Two folders with one image each and a pose CSV that the loader rejects; the user
  gives both folders the same region and the same sensor.
\<close>

definition broken_world :: world where
  "broken_world =
     \<lparr> load_pose_csv = (\<lambda>p epoch. Inl (ValueError ''cannot convert float NaN to integer'')),
       find_pose_csv_path = (\<lambda>dir. Some (dir @ ''/poses.csv'')),
       collect_image_entries = (\<lambda>dir.
         if dir = ''/in/f1'' then [\<lparr> path = ''/in/f1/A.JPG'', entry_mtime = 5 \<rparr>]
         else if dir = ''/in/f2'' then [\<lparr> path = ''/in/f2/B.JPG'', entry_mtime = 6 \<rparr>]
         else []),
       read_exif = (\<lambda>p. sample_tags),
       find_lidar_paths = (\<lambda>dir. []),
       collect_lidar_paths = (\<lambda>p. Inr []),
       find_first_image_path = (\<lambda>dir. None),
       extract_camera_model = (\<lambda>p. Some ''Cam''),
       typed_region = ''Nyon'',
       typed_sensor = [],
       collect_batch_region_sensor = Inr [(''Nyon'', ''Cam''), (''Nyon'', ''Cam'')] \<rparr>"

definition folder_plan :: "string \<Rightarrow> acquisition_plan" where
  "folder_plan dir =
     \<lparr> folder = dir, name = basename dir, plan_acquisition_date = None,
       pose_csv_path = Some (dir @ ''/poses.csv''), lidar_paths = [],
       default_sensor = Some ''Cam'' \<rparr>"

definition pose_args :: "string \<Rightarrow> cli_args" where
  "pose_args pose_csv =
     \<lparr> arg_region = Some ''Nyon'', arg_sensor = Some ''Cam'', arg_max_per_seq = 2000,
       arg_pose_csv = Some pose_csv, arg_pose_epoch = ''gps'', arg_lidar_path = None \<rparr>"

section \<open>Properties of the pruner\<close>

lemma prune_none_pruned:
  "pruned (prune_none v)"
  "pruned_items (prune_items d)"
  "pruned_elems (prune_elems xs)"
  by (induction v and d and xs rule: prune_none_prune_items_prune_elems.induct)
     (simp_all add: Let_def)

lemma pruned_fixed:
  "pruned v \<Longrightarrow> prune_none v = v"
  "pruned_items d \<Longrightarrow> prune_items d = d"
  "pruned_elems xs \<Longrightarrow> prune_elems xs = xs"
  by (induction v and d and xs rule: prune_none_prune_items_prune_elems.induct)
     (simp_all add: Let_def)

lemma pruned_items_iff:
  "pruned_items d \<longleftrightarrow> (\<forall>kv \<in> set d. \<not> dropped (snd kv) \<and> pruned (snd kv))"
  by (induction d) auto

lemma pruned_elems_iff:
  "pruned_elems xs \<longleftrightarrow> (\<forall>x \<in> set xs. \<not> dropped x \<and> pruned x)"
  by (induction xs) auto

text \<open>
  C10. Pruning twice is pruning once, and inside a pruned value no dict or list, at any
  depth, holds \<open>None\<close>, an empty dict or an empty list.
\<close>

theorem prune_none_idempotent:
  "prune_none (prune_none v) = prune_none v \<and> pruned (prune_none v)"
  by (simp add: prune_none_pruned(1) pruned_fixed(1))

theorem prune_none_idempotent_witness:
  "prune_none (prune_none (PDict [(''a'', PNone), (''b'', PList [PDict [(''c'', PNone)], PInt 1])]))
     = PDict [(''b'', PList [PInt 1])]
   \<and> pruned (PDict [(''b'', PList [PInt 1])])"
  using prune_none_idempotent
    [of "PDict [(''a'', PNone), (''b'', PList [PDict [(''c'', PNone)], PInt 1])]"]
  by simp

section \<open>Digits and formatting\<close>

lemma digit_cases: "d < 10 \<Longrightarrow> d \<in> {0,1,2,3,4,5,6,7,8,9::nat}"
  by auto

lemma digit_val: "d < 10 \<Longrightarrow> of_char (''0123456789'' ! d) = (48::nat) + d"
  using digit_cases [of d] by auto

lemma digit_is_digit: "d < 10 \<Longrightarrow> is_digit (''0123456789'' ! d)"
  using digit_cases [of d] by (auto simp: is_digit_def)

lemma undec_snoc: "undec (s @ [c]) = 10 * undec s + (of_char c - 48)"
  by (simp add: undec_def)

lemma undec_dec: "undec (dec n) = n"
proof (induction n rule: dec.induct)
  case (1 n)
  show ?case
  proof (cases "n < 10")
    case True
    then show ?thesis by (subst dec.simps) (simp add: undec_def digit_val)
  next
    case False
    with 1 show ?thesis
      by (subst dec.simps) (simp add: undec_snoc digit_val)
  qed
qed

lemma dec_digits: "list_all is_digit (dec n)"
proof (induction n rule: dec.induct)
  case (1 n)
  show ?case
  proof (cases "n < 10")
    case True
    then show ?thesis by (subst dec.simps) (simp add: digit_is_digit)
  next
    case False
    with 1 show ?thesis
      by (subst dec.simps) (simp add: digit_is_digit)
  qed
qed

lemma dec_nonempty: "dec n \<noteq> []"
  by (subst dec.simps) simp

lemma undec_zeros: "undec (replicate k CHR ''0'' @ s) = undec s"
proof -
  have "foldl (\<lambda>acc c. 10 * acc + (of_char c - 48)) 0 (replicate k CHR ''0'') = (0::nat)"
    by (induction k) simp_all
  then show ?thesis by (simp add: undec_def)
qed

lemma undec_zero_pad: "undec (zero_pad w (dec n)) = n"
  by (simp add: zero_pad_def undec_zeros undec_dec)

lemma zeros_digits: "list_all is_digit (replicate k CHR ''0'')"
  by (induction k) (simp_all add: is_digit_def)

lemma zero_pad_digits: "list_all is_digit (zero_pad w (dec n))"
  by (simp add: zero_pad_def dec_digits zeros_digits)

lemma format_0d_nonneg: "0 \<le> k \<Longrightarrow> format_0d w k = zero_pad w (dec (nat k))"
  by (simp add: format_0d_def)

lemma format_0d_inj: "0 \<le> a \<Longrightarrow> 0 \<le> b \<Longrightarrow> format_0d w a = format_0d w b \<Longrightarrow> a = b"
proof -
  assume a: "0 \<le> a" and b: "0 \<le> b" and e: "format_0d w a = format_0d w b"
  then have "undec (zero_pad w (dec (nat a))) = undec (zero_pad w (dec (nat b)))"
    by (simp add: format_0d_nonneg)
  then have "nat a = nat b" by (simp add: undec_zero_pad)
  with a b show "a = b" by simp
qed

lemma format_0d_digits: "0 \<le> k \<Longrightarrow> list_all is_digit (format_0d w k)"
  by (simp add: format_0d_nonneg zero_pad_digits)

lemma format_0d_length: "0 \<le> k \<Longrightarrow> length (format_0d w k) = max w (length (dec (nat k)))"
  by (simp add: format_0d_nonneg zero_pad_def)

lemma dec_length_le: "n < 10 ^ k \<Longrightarrow> 0 < k \<Longrightarrow> length (dec n) \<le> k"
proof (induction n arbitrary: k rule: dec.induct)
  case (1 n)
  show ?case
  proof (cases "n < 10")
    case True
    then show ?thesis using 1(3) by (subst dec.simps) simp
  next
    case False
    then obtain j where j: "k = Suc j" using 1(3) by (cases k) auto
    have "j \<noteq> 0" using False 1(2) j by (cases j) auto
    moreover have "n div 10 < 10 ^ j" using 1(2) j
      by (simp add: less_mult_imp_div_less mult.commute)
    ultimately have "length (dec (n div 10)) \<le> j" using 1(1) [OF False, of j] by simp
    then show ?thesis using False j by (subst dec.simps) simp
  qed
qed

lemma dec_length_ge: "10 ^ k \<le> n \<Longrightarrow> k < length (dec n)"
proof (induction n arbitrary: k rule: dec.induct)
  case (1 n)
  show ?case
  proof (cases "n < 10")
    case True
    have "k = 0"
    proof (cases k)
      case (Suc j)
      have "(10::nat) \<le> 10 * 10 ^ j" by simp
      moreover have "10 * 10 ^ j \<le> n" using 1(2) Suc by simp
      ultimately show ?thesis using True by linarith
    qed simp
    then show ?thesis by (subst dec.simps) simp
  next
    case False
    show ?thesis
    proof (cases k)
      case 0
      then show ?thesis using dec_nonempty [of n] by (cases "dec n") auto
    next
      case (Suc j)
      then have "10 ^ j \<le> n div 10" using 1(2)
        by (simp add: less_eq_div_iff_mult_less_eq mult.commute)
      then have "j < length (dec (n div 10))" using 1(1) [OF False] by simp
      then show ?thesis using False Suc by (subst dec.simps) simp
    qed
  qed
qed

lemma enumerate_from_snoc:
  "enumerate_from i (xs @ [x]) = enumerate_from i xs @ [(i + int (length xs), x)]"
  by (induction xs arbitrary: i) simp_all

lemma enumerate_from_length [simp]: "length (enumerate_from i xs) = length xs"
  by (induction xs arbitrary: i) simp_all

lemma enumerate_from_nth:
  "k < length xs \<Longrightarrow> enumerate_from i xs ! k = (i + int k, xs ! k)"
  by (induction xs arbitrary: i k) (auto simp: nth_Cons split: nat.splits)

lemma enumerate_from_map_snd [simp]: "map snd (enumerate_from i xs) = xs"
  by (induction xs arbitrary: i) simp_all

lemma first_seen_snoc:
  "first_seen (xs @ [x]) = (if x \<in> set xs then first_seen xs else first_seen xs @ [x])"
  by (simp add: first_seen_def)

lemma first_seen_set [simp]: "set (first_seen xs) = set xs"
  by (simp add: first_seen_def)

lemma first_seen_distinct [simp]: "distinct (first_seen xs)"
  by (simp add: first_seen_def)

lemma setdefault_append_new:
  "k \<notin> fst ` set d \<Longrightarrow> setdefault_append k v d = d @ [(k, [v])]"
  by (induction d) auto

lemma setdefault_append_map:
  "distinct ks \<Longrightarrow> k \<in> set ks \<Longrightarrow>
   setdefault_append k v (map (\<lambda>j. (j, F j)) ks) = map (\<lambda>j. (j, if j = k then F j @ [v] else F j)) ks"
  by (induction ks) auto

lemma grouping:
  "fold (\<lambda>x. setdefault_append (f x) (g x)) xs []
     = map (\<lambda>k. (k, map g (filter (\<lambda>x. f x = k) xs))) (first_seen (map f xs))"
proof (induction xs rule: rev_induct)
  case Nil
  show ?case by (simp add: first_seen_def)
next
  case (snoc x xs)
  show ?case
  proof (cases "f x \<in> set (map f xs)")
    case True
    then show ?thesis
      using snoc setdefault_append_map [of "first_seen (map f xs)" "f x" "g x"
          "\<lambda>k. map g (filter (\<lambda>x. f x = k) xs)"]
      by (auto simp: first_seen_snoc)
  next
    case False
    then have "f x \<notin> fst ` set (map (\<lambda>k. (k, map g (filter (\<lambda>x. f x = k) xs))) (first_seen (map f xs)))"
      by (auto simp: image_iff)
    moreover have "\<forall>y \<in> set xs. f y \<noteq> f x"
      using False by (metis image_eqI list.set_map)
    then have "filter (\<lambda>y. f y = f x) xs = []"
      by (simp add: filter_empty_conv)
    moreover have "\<forall>y \<in> set xs. f x \<noteq> f y"
      using False by (metis image_eqI list.set_map)
    ultimately show ?thesis using snoc False
      by (simp add: first_seen_snoc setdefault_append_new)
  qed
qed

lemma format_0d_3_length:
  "0 \<le> k \<Longrightarrow> length (format_0d 3 k) = 3 \<longleftrightarrow> k \<le> 999"
proof -
  assume k: "0 \<le> k"
  show ?thesis
  proof (cases "k \<le> 999")
    case True
    then have "nat k < 10 ^ 3" using k by simp
    then have "length (dec (nat k)) \<le> 3" by (rule dec_length_le) simp
    then show ?thesis using True k by (simp add: format_0d_length)
  next
    case False
    then have "10 ^ 3 \<le> nat k" using k by simp
    then have "3 < length (dec (nat k))" by (rule dec_length_ge)
    then show ?thesis using False k by (simp add: format_0d_length)
  qed
qed

lemma position_unique:
  assumes "0 < (m::int)" "(p - 1) div m = (q - 1) div m" "(p - 1) mod m = (q - 1) mod m"
  shows "p = q"
proof -
  have "p - 1 = m * ((p - 1) div m) + (p - 1) mod m" by simp
  also have "\<dots> = m * ((q - 1) div m) + (q - 1) mod m" using assms by simp
  also have "\<dots> = q - 1" by simp
  finally show ?thesis by simp
qed

lemma sequence_index_pos: "0 < m \<Longrightarrow> 1 \<le> p \<Longrightarrow> 0 \<le> (p - 1) div (m::int)"
  by (simp add: pos_imp_zdiv_nonneg_iff)

lemma sequence_ids_inj:
  assumes m: "0 < m" and p: "1 \<le> p" and q: "1 \<le> q"
    and s: "fst (sequence_ids p m) = fst (sequence_ids q m)"
    and f: "fst (snd (sequence_ids p m)) = fst (snd (sequence_ids q m))"
  shows "p = q"
proof -
  have "format_0d 3 ((p - 1) div m + 1) = format_0d 3 ((q - 1) div m + 1)"
    using s by (simp add: sequence_ids_def Let_def)
  moreover have "0 \<le> (p - 1) div m + 1" "0 \<le> (q - 1) div m + 1"
    using sequence_index_pos [OF m p] sequence_index_pos [OF m q] by simp_all
  ultimately have a: "(p - 1) div m = (q - 1) div m"
    using format_0d_inj by fastforce
  have "format_0d 6 ((p - 1) mod m + 1) = format_0d 6 ((q - 1) mod m + 1)"
    using f by (simp add: sequence_ids_def Let_def)
  moreover have "0 \<le> (p - 1) mod m + 1" "0 \<le> (q - 1) mod m + 1"
    using m by (simp_all add: add_nonneg_nonneg)
  ultimately have b: "(p - 1) mod m = (q - 1) mod m"
    using format_0d_inj by fastforce
  show ?thesis using m a b by (rule position_unique)
qed

lemma split_last_sep:
  assumes "a @ c # x = b @ c # y" "c \<notin> set x" "c \<notin> set y"
  shows "a = b \<and> x = y"
proof -
  have "takeWhile (\<lambda>u. u \<noteq> c) (rev (a @ c # x)) = rev x"
    using assms(2) by (auto simp: takeWhile_append2 takeWhile_tail)
  moreover have "takeWhile (\<lambda>u. u \<noteq> c) (rev (b @ c # y)) = rev y"
    using assms(3) by (auto simp: takeWhile_append2 takeWhile_tail)
  ultimately have "x = y" using assms(1) by (metis rev_is_rev_conv)
  then show ?thesis using assms(1) by simp
qed

section \<open>Division, grouping and the frame loop\<close>

lemma ceil_div:
  assumes "0 < m"
  shows "(p - 1) div m + 1 = \<lceil>real_of_int p / real_of_int m\<rceil>"
proof -
  define q r where "q = (p - 1) div m" and "r = (p - 1) mod m"
  have eq: "p - 1 = m * q + r" unfolding q_def r_def by simp
  have r: "0 \<le> r" "r < m" using assms unfolding r_def by simp_all
  have "q * m < p" using eq r by (simp add: mult.commute)
  then have "real_of_int q * real_of_int m < real_of_int p"
    by (metis of_int_less_iff of_int_mult)
  then have lo: "real_of_int (q + 1) - 1 < real_of_int p / real_of_int m"
    using assms by (simp add: pos_less_divide_eq)
  have "p \<le> (q + 1) * m" using eq r by (simp add: algebra_simps)
  then have "real_of_int p \<le> real_of_int (q + 1) * real_of_int m"
    by (metis of_int_le_iff of_int_mult)
  then have hi: "real_of_int p / real_of_int m \<le> real_of_int (q + 1)"
    using assms by (simp add: pos_divide_le_eq)
  have "\<lceil>real_of_int p / real_of_int m\<rceil> = q + 1"
    using lo hi by (rule ceiling_unique)
  then show ?thesis by (simp add: q_def)
qed

lemma div_bounds:
  assumes "0 < (m::int)"
  shows "a div m = q \<longleftrightarrow> q * m \<le> a \<and> a < (q + 1) * m"
proof
  assume q: "a div m = q"
  define r where "r = a mod m"
  have "a = m * q + r" unfolding r_def q [symmetric] by simp
  moreover have "0 \<le> r" "r < m" using assms by (simp_all add: r_def)
  ultimately show "q * m \<le> a \<and> a < (q + 1) * m"
    by (simp add: algebra_simps)
next
  assume h: "q * m \<le> a \<and> a < (q + 1) * m"
  define r where "r = a - q * m"
  have "a = m * q + r" "0 \<le> r" "r < m" using h by (simp_all add: r_def algebra_simps)
  then show "a div m = q" using assms
    by (metis div_mult_self2 add.commute div_pos_pos_trivial add_cancel_right_right less_irrefl)
qed

lemma pred_div:
  assumes "0 < (m::int)"
  shows "(n - 1) div m = (if n mod m = 0 then n div m - 1 else n div m)"
proof (cases "n mod m = 0")
  case True
  then have n: "n = (n div m) * m" by (metis div_mult_mod_eq add.right_neutral mult.commute)
  have "(n div m - 1) * m \<le> n - 1 \<and> n - 1 < (n div m - 1 + 1) * m"
    using assms n by (simp add: algebra_simps) 
  then show ?thesis using True div_bounds [OF assms, of "n - 1" "n div m - 1"] by simp
next
  case False
  define d r where "d = n div m" and "r = n mod m"
  have "n = m * d + r" by (simp add: d_def r_def)
  moreover have "0 \<le> r" "r < m" "r \<noteq> 0" using assms False by (simp_all add: r_def)
  ultimately have "d * m \<le> n - 1 \<and> n - 1 < (d + 1) * m"
    by (simp add: algebra_simps)
  then have "(n div m) * m \<le> n - 1 \<and> n - 1 < (n div m + 1) * m"
    by (simp add: d_def)
  then show ?thesis using False div_bounds [OF assms, of "n - 1" "n div m"] by simp
qed

lemma first_seen_map_inj:
  "inj_on f (set xs) \<Longrightarrow> first_seen (map f xs) = map f (first_seen xs)"
proof (induction xs rule: rev_induct)
  case Nil
  show ?case by (simp add: first_seen_def)
next
  case (snoc x xs)
  then have "inj_on f (set xs)" by (simp add: inj_on_def)
  moreover have "f x \<in> f ` set xs \<longleftrightarrow> x \<in> set xs"
    using snoc(2) by (auto simp: inj_on_def)
  ultimately show ?case using snoc(1) by (simp add: first_seen_snoc)
qed

lemma setdefault_append_sizes:
  "sum_list (map (\<lambda>kv. length (snd kv)) (setdefault_append k v d))
     = Suc (sum_list (map (\<lambda>kv. length (snd kv)) d))"
  by (induction d) auto

lemma setdefault_append_mset:
  "mset (concat (map snd (setdefault_append k v d))) = add_mset v (mset (concat (map snd d)))"
  by (induction d) auto

lemma setdefault_append_keys:
  "map fst (setdefault_append k v d) = (if k \<in> fst ` set d then map fst d else map fst d @ [k])"
  by (induction d) auto

lemma seq_index_first_seen:
  assumes m: "0 < m"
  shows "first_seen (map (\<lambda>p. (p - 1) div m + 1) [1..int n]) = [1..(int n - 1) div m + 1]"
proof (induction n)
  case 0
  have "(- 1) div m = - 1" using m div_bounds [OF m, of "- 1" "- 1"] by simp
  then show ?case by (simp add: first_seen_def)
next
  case (Suc n)
  let ?sq = "\<lambda>p. (p - 1) div m + 1"
  let ?K = "(int n - 1) div m + 1"
  have up: "[1..int (Suc n)] = [1..int n] @ [int n + 1]" by (simp add: upto_rec2)
  have set_eq: "set (map ?sq [1..int n]) = {1..?K}"
    using Suc first_seen_set [of "map ?sq [1..int n]"] by simp
  have nn: "0 \<le> int n div m" using m by (simp add: pos_imp_zdiv_nonneg_iff)
  show ?case
  proof (cases "int n mod m = 0")
    case True
    then have K: "?K = int n div m" using pred_div [OF m, of "int n"] by simp
    have "int n div m + 1 \<notin> set (map ?sq [1..int n])" unfolding set_eq K by simp
    then have "first_seen (map ?sq [1..int (Suc n)]) = [1..?K] @ [int n div m + 1]"
      unfolding up using Suc by (simp add: first_seen_snoc)
    also have "\<dots> = [1..int n div m + 1]" unfolding K using nn by (simp add: upto_rec2)
    finally show ?thesis by simp
  next
    case False
    then have K: "?K = int n div m + 1" using pred_div [OF m, of "int n"] by simp
    have "int n div m + 1 \<in> set (map ?sq [1..int n])" unfolding set_eq K using nn by simp
    then have "first_seen (map ?sq [1..int (Suc n)]) = [1..?K]"
      unfolding up using Suc by (simp add: first_seen_snoc)
    then show ?thesis unfolding K by simp
  qed
qed

lemma seq_index_iff:
  assumes m: "0 < (m::int)"
  shows "((p - 1) div m + 1 = k) = ((k - 1) * m + 1 \<le> p \<and> p \<le> k * m)"
proof -
  have "((p - 1) div m + 1 = k) = ((p - 1) div m = k - 1)" by linarith
  also have "\<dots> = ((k - 1) * m \<le> p - 1 \<and> p - 1 < (k - 1 + 1) * m)"
    by (rule div_bounds [OF m])
  also have "\<dots> = ((k - 1) * m + 1 \<le> p \<and> p \<le> k * m)" by auto
  finally show ?thesis .
qed

lemma seq_index_count:
  assumes k: "1 \<le> k" and m: "0 < m"
  shows "length (filter (\<lambda>p. (p - 1) div m + 1 = k) [1..n]) = nat (min (k * m) n - (k - 1) * m)"
proof -
  have nonneg: "0 \<le> (k - 1) * m" using k m by simp
  have "set (filter (\<lambda>p. (p - 1) div m + 1 = k) [1..n]) = {(k - 1) * m + 1..min (k * m) n}"
  proof (rule set_eqI)
    fix p
    show "p \<in> set (filter (\<lambda>p. (p - 1) div m + 1 = k) [1..n])
        \<longleftrightarrow> p \<in> {(k - 1) * m + 1..min (k * m) n}"
      unfolding set_filter mem_Collect_eq seq_index_iff [OF m] using nonneg by auto
  qed
  moreover have "distinct (filter (\<lambda>p. (p - 1) div m + 1 = k) [1..n])" by simp
  ultimately have "length (filter (\<lambda>p. (p - 1) div m + 1 = k) [1..n])
      = card {(k - 1) * m + 1..min (k * m) n}"
    by (metis distinct_card)
  then show ?thesis by simp
qed

lemma enumerate_from_map_fst:
  "map fst (enumerate_from i xs) = [i..i + int (length xs) - 1]"
proof (induction xs arbitrary: i)
  case Nil
  show ?case by simp
next
  case (Cons x xs)
  have "i \<le> i + int (length (x # xs)) - 1" by simp
  then have "[i..i + int (length (x # xs)) - 1] = i # [i + 1..i + int (length (x # xs)) - 1]"
    by (rule upto_rec1)
  moreover have "i + int (length (x # xs)) - 1 = i + 1 + int (length xs) - 1" by simp
  ultimately show ?case using Cons [of "i + 1"] by simp
qed

lemma sequence_name_inj: "0 \<le> a \<Longrightarrow> 0 \<le> b \<Longrightarrow> sequence_name a = sequence_name b \<Longrightarrow> a = b"
  using format_0d_inj [of a b 3] by (simp add: sequence_name_def)

lemma frame_sequence_id_name:
  "frame_sequence_id m fr = sequence_name ((fst fr - 1) div m + 1)"
  by (simp add: frame_sequence_id_def sequence_ids_def sequence_name_def Let_def)

lemma render_frame_poses:
  "poses_by_sequence (render_frame a s m out fr st)
     = setdefault_append (frame_sequence_id m fr) (frame_row a s m out fr) (poses_by_sequence st)"
  by (cases fr)
     (simp add: render_frame_def frame_sequence_id_def frame_row_def Let_def split: prod.splits)

lemma frame_loop_poses:
  "poses_by_sequence (fold (render_frame a s m out) frs st)
     = fold (\<lambda>fr. setdefault_append (frame_sequence_id m fr) (frame_row a s m out fr)) frs
         (poses_by_sequence st)"
  by (induction frs arbitrary: st) (simp_all add: render_frame_poses)

lemma sequence_rows_grouped:
  "sequence_rows a rs s m out
     = map (\<lambda>k. (k, map (frame_row a s m out)
                      (filter (\<lambda>fr. frame_sequence_id m fr = k)
                         (enumerate_from 1 (sorted_records rs)))))
         (first_seen (map (frame_sequence_id m) (enumerate_from 1 (sorted_records rs))))"
  by (simp add: sequence_rows_def rendered_def frame_loop_def frame_loop_poses grouping)

lemma sequence_sizes:
  assumes m: "0 < m"
  shows "map (\<lambda>kv. (fst kv, int (length (snd kv)))) (sequence_rows a rs s m out)
     = map (\<lambda>k. (sequence_name k, min (k * m) (int (length rs)) - (k - 1) * m))
         [1..(int (length rs) - 1) div m + 1]"
proof -
  let ?frs = "enumerate_from 1 (sorted_records rs)"
  let ?n = "int (length rs)"
  let ?sq = "\<lambda>p. (p - 1) div m + 1"
  have fsts: "map fst ?frs = [1..?n]"
    by (simp add: enumerate_from_map_fst sorted_records_def)
  have sq_nonneg: "0 \<le> ?sq p" if "1 \<le> p" for p
    using that m by (simp add: pos_imp_zdiv_nonneg_iff)
  have ids: "map (frame_sequence_id m) ?frs = map sequence_name (map ?sq [1..?n])"
    unfolding fsts [symmetric] by (simp add: frame_sequence_id_name)
  have "inj_on sequence_name (set (map ?sq [1..?n]))"
  proof (rule inj_onI)
    fix u v
    assume u: "u \<in> set (map ?sq [1..?n])" and v: "v \<in> set (map ?sq [1..?n])"
      and e: "sequence_name u = sequence_name v"
    from u obtain x where "1 \<le> x" "u = ?sq x" by auto
    then have "0 \<le> u" using sq_nonneg [of x] by simp
    moreover from v obtain y where "1 \<le> y" "v = ?sq y" by auto
    then have "0 \<le> v" using sq_nonneg [of y] by simp
    ultimately show "u = v" using e by (rule sequence_name_inj)
  qed
  then have "first_seen (map sequence_name (map ?sq [1..?n]))
      = map sequence_name (first_seen (map ?sq [1..?n]))"
    by (rule first_seen_map_inj)
  also have "\<dots> = map sequence_name [1..(?n - 1) div m + 1]"
    by (simp only: seq_index_first_seen [OF m])
  finally have keys: "first_seen (map (frame_sequence_id m) ?frs)
      = map sequence_name [1..(?n - 1) div m + 1]"
    unfolding ids .
  have count: "int (length (filter (\<lambda>fr. frame_sequence_id m fr = sequence_name k) ?frs))
      = min (k * m) ?n - (k - 1) * m" if k: "1 \<le> k" "k \<le> (?n - 1) div m + 1" for k
  proof -
    have "filter (\<lambda>fr. frame_sequence_id m fr = sequence_name k) ?frs
        = filter (\<lambda>fr. ?sq (fst fr) = k) ?frs"
    proof (rule filter_cong [OF refl])
      fix fr assume "fr \<in> set ?frs"
      then have "fst fr \<in> set (map fst ?frs)" by (metis image_eqI list.set_map)
      then have "1 \<le> fst fr" unfolding fsts by simp
      then show "(frame_sequence_id m fr = sequence_name k) = (?sq (fst fr) = k)"
        using sequence_name_inj [of "?sq (fst fr)" k] sq_nonneg [of "fst fr"] k
        by (auto simp: frame_sequence_id_name)
    qed
    then have "length (filter (\<lambda>fr. frame_sequence_id m fr = sequence_name k) ?frs)
        = length (filter (\<lambda>p. ?sq p = k) (map fst ?frs))"
      by (simp add: filter_map comp_def)
    also have "\<dots> = nat (min (k * m) ?n - (k - 1) * m)"
      unfolding fsts using seq_index_count [OF k(1) m] by simp
    finally have e: "length (filter (\<lambda>fr. frame_sequence_id m fr = sequence_name k) ?frs)
        = nat (min (k * m) ?n - (k - 1) * m)" .
    have "(k - 1) * m \<le> ?n - 1"
    proof -
      have "(k - 1) * m \<le> ((?n - 1) div m) * m" using k m by simp
      also have "\<dots> \<le> ?n - 1" using m div_bounds [OF m, of "?n - 1" "(?n - 1) div m"] by simp
      finally show ?thesis .
    qed
    moreover have "(k - 1) * m \<le> k * m" using m by (simp add: algebra_simps)
    ultimately have "0 \<le> min (k * m) ?n - (k - 1) * m" by simp
    then show ?thesis using e by simp
  qed
  show ?thesis
    unfolding sequence_rows_grouped keys
    by (simp add: comp_def count)
qed

section \<open>Sequences and frames\<close>

lemma frame_index_bounds: "0 < (m::int) \<Longrightarrow> 1 \<le> (p - 1) mod m + 1 \<and> (p - 1) mod m + 1 \<le> m"
  using pos_mod_bound [of m "p - 1"] pos_mod_sign [of m "p - 1"] by linarith

lemma undec_format_0d: "0 \<le> k \<Longrightarrow> undec (format_0d w k) = nat k"
  by (simp add: format_0d_nonneg undec_zero_pad)

lemma sequence_name_shape:
  assumes "0 \<le> k"
  shows "sequence_name k = CHR ''S'' # format_0d 3 k \<and> list_all is_digit (format_0d 3 k)
         \<and> undec (format_0d 3 k) = nat k \<and> 3 \<le> length (format_0d 3 k)
         \<and> (length (format_0d 3 k) = 3 \<longleftrightarrow> k \<le> 999)"
  using assms format_0d_3_length [OF assms]
  by (simp add: sequence_name_def format_0d_digits format_0d_length undec_format_0d)

lemma frame_row_index:
  "dict_get (frame_row a s m out fr) ''frame_index'' = PInt ((fst fr - 1) mod m + 1)"
  by (simp add: frame_row_def sequence_ids_def build_pose_entry_def dict_get_def Let_def)

lemma fold_setdefault_sizes:
  "sum_list (map (\<lambda>kv. length (snd kv)) (fold (\<lambda>x. setdefault_append (f x) (g x)) xs d))
     = length xs + sum_list (map (\<lambda>kv. length (snd kv)) d)"
  by (induction xs arbitrary: d) (simp_all add: setdefault_append_sizes)

lemma sequence_rows_total:
  "sum_list (map (\<lambda>kv. length (snd kv)) (sequence_rows a rs s m out)) = length rs"
  by (simp add: sequence_rows_def rendered_def frame_loop_def frame_loop_poses
      sorted_records_def fold_setdefault_sizes)

lemma last_sequence_size:
  assumes m: "0 < (m::int)" and n: "1 \<le> n"
  shows "1 \<le> n - ((n - 1) div m) * m \<and> n - ((n - 1) div m) * m \<le> m"
  using div_bounds [OF m, of "n - 1" "(n - 1) div m"] by (simp add: algebra_simps)

lemma sequence_size_cases:
  assumes m: "0 < (m::int)" and k: "1 \<le> k" "k \<le> (n - 1) div m + 1"
  shows "min (k * m) n - (k - 1) * m = (if k < (n - 1) div m + 1 then m else n - ((n - 1) div m) * m)"
proof (cases "k < (n - 1) div m + 1")
  case True
  then have "k * m \<le> ((n - 1) div m) * m" using m by simp
  also have "\<dots> \<le> n - 1" using div_bounds [OF m, of "n - 1" "(n - 1) div m"] by simp
  finally have "min (k * m) n = k * m" by simp
  then show ?thesis using True by (simp add: algebra_simps)
next
  case False
  then have e: "k = (n - 1) div m + 1" using k by simp
  have "n - 1 < ((n - 1) div m + 1) * m" using div_bounds [OF m, of "n - 1" "(n - 1) div m"] by simp
  then have "min (k * m) n = n" unfolding e by simp
  then show ?thesis using False e by simp
qed

text \<open>
  C2 (amended). With \<open>max_per_seq > 0\<close>, the record at sorted position \<open>p\<close> (counted
  from 1) gets the sequence index \<open>\<lceil>p / max_per_seq\<rceil>\<close> and the frame index
  \<open>((p - 1) mod max_per_seq) + 1\<close>, which lies between 1 and \<open>max_per_seq\<close>. The
  sequence identifier is \<open>S\<close> followed by the decimal digits of the index, padded with
  zeros to at least three digits; it has exactly three digits only while the index is at
  most 999. The sequences of a group of \<open>n\<close> records are numbered from 1 to
  \<open>\<lceil>n / max_per_seq\<rceil>\<close>, each but the last holds \<open>max_per_seq\<close> rows, the last holds
  between 1 and \<open>max_per_seq\<close>, and the sizes add up to \<open>n\<close>.
\<close>

theorem sequence_assignment:
  assumes m: "0 < m"
  shows "sequence_ids p m
           = (sequence_name \<lceil>real_of_int p / real_of_int m\<rceil>,
              format_0d 6 ((p - 1) mod m + 1), (p - 1) mod m + 1)
     \<and> 1 \<le> (p - 1) mod m + 1 \<and> (p - 1) mod m + 1 \<le> m
     \<and> (\<forall>i < length rs.
           frame_sequence_id m (enumerate_from 1 (sorted_records rs) ! i)
             = sequence_name \<lceil>real_of_int (int i + 1) / real_of_int m\<rceil>
           \<and> dict_get (frame_row a s m out (enumerate_from 1 (sorted_records rs) ! i))
                 ''frame_index'' = PInt (int i mod m + 1))
     \<and> (\<forall>k \<ge> 0. sequence_name k = CHR ''S'' # format_0d 3 k
            \<and> list_all is_digit (format_0d 3 k) \<and> undec (format_0d 3 k) = nat k
            \<and> 3 \<le> length (format_0d 3 k)
            \<and> (length (format_0d 3 k) = 3 \<longleftrightarrow> k \<le> 999))
     \<and> (let n = int (length rs); K = \<lceil>real_of_int n / real_of_int m\<rceil>
        in map (\<lambda>kv. (fst kv, int (length (snd kv)))) (sequence_rows a rs s m out)
             = map (\<lambda>k. (sequence_name k, if k < K then m else n - (K - 1) * m)) [1..K]
           \<and> (rs \<noteq> [] \<longrightarrow> 1 \<le> n - (K - 1) * m \<and> n - (K - 1) * m \<le> m))
     \<and> sum_list (map (\<lambda>kv. length (snd kv)) (sequence_rows a rs s m out)) = length rs"
proof -
  let ?n = "int (length rs)"
  let ?K = "(?n - 1) div m + 1"
  have K: "\<lceil>real_of_int ?n / real_of_int m\<rceil> = ?K" by (rule ceil_div [OF m, symmetric])
  have ids: "sequence_ids p m
      = (sequence_name \<lceil>real_of_int p / real_of_int m\<rceil>,
         format_0d 6 ((p - 1) mod m + 1), (p - 1) mod m + 1)"
    by (simp add: sequence_ids_def sequence_name_def Let_def ceil_div [OF m])
  have frames: "frame_sequence_id m (enumerate_from 1 (sorted_records rs) ! i)
        = sequence_name \<lceil>real_of_int (int i + 1) / real_of_int m\<rceil>
      \<and> dict_get (frame_row a s m out (enumerate_from 1 (sorted_records rs) ! i))
            ''frame_index'' = PInt (int i mod m + 1)" if "i < length rs" for i
  proof -
    have "enumerate_from 1 (sorted_records rs) ! i = (1 + int i, sorted_records rs ! i)"
      using that by (simp add: enumerate_from_nth sorted_records_def)
    moreover have "\<lceil>real_of_int (int i + 1) / real_of_int m\<rceil> = (int i + 1 - 1) div m + 1"
      by (rule ceil_div [OF m, symmetric])
    ultimately show ?thesis
      by (simp only: frame_sequence_id_name frame_row_index fst_conv) simp
  qed
  have sizes: "map (\<lambda>kv. (fst kv, int (length (snd kv)))) (sequence_rows a rs s m out)
      = map (\<lambda>k. (sequence_name k, if k < ?K then m else ?n - (?K - 1) * m)) [1..?K]"
    unfolding sequence_sizes [OF m]
    by (rule map_cong [OF refl]) (simp add: sequence_size_cases [OF m])
  have last: "1 \<le> ?n - (?K - 1) * m \<and> ?n - (?K - 1) * m \<le> m" if "rs \<noteq> []"
  proof -
    have "1 \<le> ?n" using that by (cases rs) simp_all
    then show ?thesis using last_sequence_size [OF m, of ?n] by simp
  qed
  show ?thesis
    unfolding Let_def K
    using ids frame_index_bounds [OF m, of p] frames sequence_name_shape sizes last
      sequence_rows_total [of a rs s m out]
    by blast
qed

theorem sequence_assignment_witness:
  "sequence_ids 5 2 = (''S003'', ''000001'', 1)
   \<and> map (\<lambda>kv. (fst kv, int (length (snd kv))))
        (sequence_rows ''20240101-Nyon''
           [plain_record ''/in/a.jpg'' ''20240101'' 1, plain_record ''/in/b.jpg'' ''20240101'' 2,
            plain_record ''/in/c.jpg'' ''20240101'' 3] ''Cam'' 2 ''/out'')
      = [(''S001'', 2), (''S002'', 1)]"
proof -
  have h: "0 < (2::int)" by simp
  have c: "\<lceil>(5::real) / 2\<rceil> = 3" "\<lceil>(3::real) / 2\<rceil> = 2" by simp_all
  have u: "[1..(2::int)] = [1, 2]" by (simp add: upto.simps)
  have n: "sequence_name 1 = ''S001''" "sequence_name 2 = ''S002''" "sequence_name 3 = ''S003''"
    "format_0d 6 1 = ''000001''"
    by code_simp+
  show ?thesis
    using sequence_assignment [OF h, of 5
        "[plain_record ''/in/a.jpg'' ''20240101'' 1, plain_record ''/in/b.jpg'' ''20240101'' 2,
          plain_record ''/in/c.jpg'' ''20240101'' 3]" "''20240101-Nyon''" "''Cam''" "''/out''"]
    by (simp add: c u n Let_def)
qed

theorem sequence_id_three_digits_counterexample:
  "\<not> three_digit_sequence_id (fst (sequence_ids 1000 1))"
  by code_simp

section \<open>The deterministic order\<close>

lemma sort_key_order: "record_sort_key r \<le> record_sort_key r' \<longleftrightarrow> sorts_before r r'"
  by (auto simp: record_sort_key_def sorts_before_def pose_epoch_def split: option.splits)

lemma sort_key_src: "record_sort_key r = record_sort_key r' \<Longrightarrow> src r = src r'"
  by (auto simp: record_sort_key_def split: option.splits)

lemma sort_key_inj: "distinct (map src rs) \<Longrightarrow> inj_on record_sort_key (set rs)"
proof (rule inj_onI)
  fix r r'
  assume d: "distinct (map src rs)" and r: "r \<in> set rs" "r' \<in> set rs"
    and e: "record_sort_key r = record_sort_key r'"
  have "inj_on src (set rs)" using d by (simp add: distinct_map)
  then show "r = r'" using r sort_key_src [OF e] by (simp add: inj_on_def)
qed

lemma sorted_records_sorted: "sorted_wrt sorts_before (sorted_records rs)"
proof -
  have "sorted (map record_sort_key (sorted_records rs))" by (simp add: sorted_records_def)
  then show ?thesis by (simp add: sorted_map sort_key_order [abs_def])
qed

lemma sorted_records_mset: "mset (sorted_records rs) = mset rs"
  by (simp add: sorted_records_def)

lemma sorted_records_permuted:
  assumes d: "distinct (map src rs)" and p: "mset rs' = mset rs"
  shows "sorted_records rs' = sorted_records rs"
proof -
  have "mset (map src rs') = mset (map src rs)" using p by simp
  then have "distinct (map src rs')" using d by (metis mset_eq_imp_distinct_iff)
  then have i: "inj_on record_sort_key (set rs')" by (rule sort_key_inj)
  have e: "mset rs' = mset (sorted_records rs)" using p by (simp add: sorted_records_mset)
  have o: "sorted (map record_sort_key (sorted_records rs))" by (simp add: sorted_records_def)
  show ?thesis unfolding sorted_records_def [of rs'] by (rule sort_key_inj_key_eq [OF e i o])
qed

lemma process_acquisition_sorted:
  "process_acquisition py a rs s m out = process_acquisition py a (sorted_records rs) s m out"
proof -
  have "sorted_records (sorted_records rs) = sorted_records rs"
    by (simp add: sorted_records_def sort_key_id_if_sorted)
  then show ?thesis by (simp add: process_acquisition_def)
qed

section \<open>Grouping by acquisition\<close>

lemma render_frame_copied: "copied (render_frame a s m out fr st) = Suc (copied st)"
  by (cases fr) (simp add: render_frame_def Let_def split: prod.splits)

lemma frame_loop_copied: "copied (fold (render_frame a s m out) frs st) = length frs + copied st"
  by (induction frs arbitrary: st) (simp_all add: render_frame_copied)

lemma process_acquisition_returns:
  "m \<noteq> 0 \<Longrightarrow> process_acquisition py a rs s m out
     = Inr (length rs, acquisition_writes py a rs s m out)"
  by (simp add: acquisition_writes_def process_acquisition_def Let_def frame_loop_def
      frame_loop_copied sorted_records_def)

lemma process_groups_returns:
  "m \<noteq> 0 \<Longrightarrow> process_groups py s m out groups acc
     = Inr (fst acc + sum_list (map (\<lambda>g. length (snd g)) groups),
            snd acc @ concat (map (\<lambda>g. acquisition_writes py (fst g) (snd g) s m out) groups))"
  by (induction groups arbitrary: acc) (simp_all add: process_acquisition_returns)

lemma group_records_grouped:
  "group_records region rs
     = map (\<lambda>k. (k, filter (\<lambda>r. acquisition_id_of region r = k) rs))
         (first_seen (map (acquisition_id_of region) rs))"
  using grouping [of "acquisition_id_of region" "\<lambda>r. r" rs] by (simp add: group_records_def)

lemma fold_setdefault_mset:
  "mset (concat (map snd (fold (\<lambda>x. setdefault_append (f x) (g x)) xs d)))
     = mset (map g xs) + mset (concat (map snd d))"
  by (induction xs arbitrary: d) (simp_all add: setdefault_append_mset)

lemma group_records_mset: "mset (concat (map snd (group_records region rs))) = mset rs"
  using fold_setdefault_mset [of "acquisition_id_of region" "\<lambda>r. r" rs "[]"]
  by (simp add: group_records_def)

lemma group_records_total:
  "sum_list (map (\<lambda>g. length (snd g)) (group_records region rs)) = length rs"
  using fold_setdefault_sizes [of "acquisition_id_of region" "\<lambda>r. r" rs "[]"]
  by (simp add: group_records_def)

lemma group_records_keys:
  "map fst (group_records region rs) = first_seen (map (acquisition_id_of region) rs)"
  by (simp add: group_records_grouped comp_def)

lemma group_records_member:
  "g \<in> set (group_records region rs) \<Longrightarrow>
     fst g \<in> set (map (acquisition_id_of region) rs)
     \<and> snd g = filter (\<lambda>r. acquisition_id_of region r = fst g) rs"
  by (auto simp: group_records_grouped)

lemma group_records_unique:
  assumes "r \<in> set rs"
  shows "\<exists>!g. g \<in> set (group_records region rs) \<and> r \<in> set (snd g)"
proof (rule ex1I [of _ "(acquisition_id_of region r,
      filter (\<lambda>x. acquisition_id_of region x = acquisition_id_of region r) rs)"])
  show "(acquisition_id_of region r,
      filter (\<lambda>x. acquisition_id_of region x = acquisition_id_of region r) rs)
        \<in> set (group_records region rs)
      \<and> r \<in> set (snd (acquisition_id_of region r,
      filter (\<lambda>x. acquisition_id_of region x = acquisition_id_of region r) rs))"
    using assms by (auto simp: group_records_grouped)
next
  fix g
  assume g: "g \<in> set (group_records region rs) \<and> r \<in> set (snd g)"
  then have "snd g = filter (\<lambda>x. acquisition_id_of region x = fst g) rs"
    using group_records_member by blast
  moreover from this g have "acquisition_id_of region r = fst g" by auto
  ultimately show "g = (acquisition_id_of region r,
      filter (\<lambda>x. acquisition_id_of region x = acquisition_id_of region r) rs)"
    by (cases g) simp
qed

text \<open>
  C4. Grouping partitions the records by \<open>{acquisition_date}-{region}\<close>: the groups are
  keyed by the distinct identifiers in the order of their first occurrence, each group
  holds the records with its identifier, every record is in exactly one group, none is
  dropped or duplicated, the sizes add up to the number of records, and the groups are
  processed in that order.
\<close>

theorem acquisition_grouping:
  "group_records region rs
     = map (\<lambda>k. (k, filter (\<lambda>r. acquisition_id_of region r = k) rs))
         (first_seen (map (\<lambda>r. acquisition_date r @ ''-'' @ region) rs))
   \<and> acquisition_id_of region r = acquisition_date r @ ''-'' @ region
   \<and> distinct (map fst (group_records region rs))
   \<and> mset (concat (map snd (group_records region rs))) = mset rs
   \<and> sum_list (map (\<lambda>g. length (snd g)) (group_records region rs)) = length rs
   \<and> (\<forall>r \<in> set rs. \<exists>!g. g \<in> set (group_records region rs) \<and> r \<in> set (snd g))
   \<and> (m \<noteq> 0 \<longrightarrow>
        process_records_by_acquisition py rs region s m out
          = Inr ((length rs, length (group_records region rs)),
                 concat (map (\<lambda>g. acquisition_writes py (fst g) (snd g) s m out)
                           (group_records region rs))))"
proof -
  have ids: "acquisition_id_of region = (\<lambda>r. acquisition_date r @ ''-'' @ region)"
    by (rule ext) (simp add: acquisition_id_of_def)
  have "distinct (map fst (group_records region rs))"
    by (simp add: group_records_keys)
  moreover have "process_records_by_acquisition py rs region s m out
          = Inr ((length rs, length (group_records region rs)),
                 concat (map (\<lambda>g. acquisition_writes py (fst g) (snd g) s m out)
                           (group_records region rs)))" if "m \<noteq> 0"
    using that
    by (simp add: process_records_by_acquisition_def process_groups_returns group_records_total
        Let_def)
  ultimately show ?thesis
    using group_records_grouped [of region rs] group_records_mset [of region rs]
      group_records_total [of region rs] group_records_unique [of _ rs region]
    unfolding ids by simp
qed

theorem acquisition_grouping_witness:
  "group_records ''Nyon''
     [plain_record ''/in/a.jpg'' ''20240101'' 1, plain_record ''/in/b.jpg'' ''20240202'' 2,
      plain_record ''/in/c.jpg'' ''20240101'' 3]
     = [(''20240101-Nyon'',
         [plain_record ''/in/a.jpg'' ''20240101'' 1, plain_record ''/in/c.jpg'' ''20240101'' 3]),
        (''20240202-Nyon'', [plain_record ''/in/b.jpg'' ''20240202'' 2])]
   \<and> process_records_by_acquisition toy_stdlib
        [plain_record ''/in/a.jpg'' ''20240101'' 1, plain_record ''/in/b.jpg'' ''20240202'' 2,
         plain_record ''/in/c.jpg'' ''20240101'' 3] ''Nyon'' ''Cam'' 2 ''/out''
     = Inr ((3, 2),
            acquisition_writes toy_stdlib ''20240101-Nyon''
              [plain_record ''/in/a.jpg'' ''20240101'' 1, plain_record ''/in/c.jpg'' ''20240101'' 3]
              ''Cam'' 2 ''/out''
            @ acquisition_writes toy_stdlib ''20240202-Nyon''
                [plain_record ''/in/b.jpg'' ''20240202'' 2] ''Cam'' 2 ''/out'')"
proof -
  have g: "group_records ''Nyon''
     [plain_record ''/in/a.jpg'' ''20240101'' 1, plain_record ''/in/b.jpg'' ''20240202'' 2,
      plain_record ''/in/c.jpg'' ''20240101'' 3]
     = [(''20240101-Nyon'',
         [plain_record ''/in/a.jpg'' ''20240101'' 1, plain_record ''/in/c.jpg'' ''20240101'' 3]),
        (''20240202-Nyon'', [plain_record ''/in/b.jpg'' ''20240202'' 2])]"
    by (simp add: group_records_def acquisition_id_of_def plain_record_def)
  have m: "(2::int) \<noteq> 0" by simp
  show ?thesis
    using m acquisition_grouping [of "''Nyon''"
        "[plain_record ''/in/a.jpg'' ''20240101'' 1, plain_record ''/in/b.jpg'' ''20240202'' 2,
          plain_record ''/in/c.jpg'' ''20240101'' 3]" _ 2 toy_stdlib "''Cam''" "''/out''"]
    unfolding g by simp
qed

section \<open>Trajectory tables\<close>

lemma path_join_inj:
  "b \<noteq> [] \<Longrightarrow> hd b \<noteq> CHR ''/'' \<Longrightarrow> c \<noteq> [] \<Longrightarrow> hd c \<noteq> CHR ''/'' \<Longrightarrow>
   path_join a b = path_join a c \<Longrightarrow> b = c"
  by (auto simp: path_join_def split: if_splits)

lemma path_join_suffix: "\<exists>u. path_join a b = u @ b"
proof (cases "b \<noteq> [] \<and> hd b = CHR ''/''")
  case True
  then have "path_join a b = [] @ b" by (simp add: path_join_def)
  then show ?thesis by blast
next
  case False
  show ?thesis
  proof (cases "a = [] \<or> last a = CHR ''/''")
    case True
    then have "path_join a b = a @ b" using False by (auto simp: path_join_def)
    then show ?thesis by blast
  next
    case f: False
    then have "path_join a b = (a @ ''/'') @ b" using False by (auto simp: path_join_def)
    then show ?thesis by blast
  qed
qed

lemma render_frame_written:
  "written (render_frame a s m out fr st) = written st @ frame_writes a s m out fr"
  by (cases fr) (simp add: render_frame_def frame_writes_def Let_def split: prod.splits)

lemma frame_loop_written:
  "written (fold (render_frame a s m out) frs st)
     = written st @ concat (map (frame_writes a s m out) frs)"
  by (induction frs arbitrary: st) (simp_all add: render_frame_written)

lemma render_frame_with_pose:
  "sequences_with_pose (render_frame a s m out fr st)
     = (if pose_has_data (frame_row a s m out fr)
        then insert (frame_sequence_id m fr) (sequences_with_pose st)
        else sequences_with_pose st)"
  by (cases fr)
     (simp add: render_frame_def frame_row_def frame_sequence_id_def Let_def split: prod.splits)

lemma frame_loop_with_pose:
  "sequences_with_pose (fold (render_frame a s m out) frs st)
     = sequences_with_pose st
       \<union> {k. \<exists>fr \<in> set frs. frame_sequence_id m fr = k \<and> pose_has_data (frame_row a s m out fr)}"
  by (induction frs arbitrary: st) (auto simp: render_frame_with_pose)

lemma sequences_with_pose_rendered:
  "sequences_with_pose (rendered a rs s m out)
     = {k. \<exists>fr \<in> set (enumerate_from 1 (sorted_records rs)).
             frame_sequence_id m fr = k \<and> pose_has_data (frame_row a s m out fr)}"
  by (simp add: rendered_def frame_loop_def frame_loop_with_pose)

lemma acquisition_writes_parts:
  "m \<noteq> 0 \<Longrightarrow> acquisition_writes py a rs s m out
     = descriptor_writes (path_join out a) (sorted_records rs) s
       @ concat (map (frame_writes a s m out) (enumerate_from 1 (sorted_records rs)))
       @ emit_trajectories py a s (path_join (path_join out a) ''02_poses'')
           (sequences_with_pose (rendered a rs s m out)) (sequence_rows a rs s m out)"
  by (simp add: acquisition_writes_def process_acquisition_def Let_def sequence_rows_def
      rendered_def frame_loop_def frame_loop_written)

lemma csv_written_append [simp]:
  "csv_written (xs @ ys) p \<longleftrightarrow> csv_written xs p \<or> csv_written ys p"
  by (auto simp: csv_written_def list_ex_iff)

lemma csv_written_descriptors [simp]: "\<not> csv_written (descriptor_writes r rs s) p"
  by (simp add: csv_written_def descriptor_writes_def split: option.splits)

lemma csv_written_frames [simp]: "\<not> csv_written (concat (map (frame_writes a s m out) frs)) p"
  by (induction frs) (simp_all add: csv_written_def frame_writes_def split: prod.splits)

lemma csv_written_emit:
  "csv_written (emit_trajectories py a s rt W items) p
     \<longleftrightarrow> (\<exists>item \<in> set items. fst item \<in> W \<and> path_join rt (fst item @ ''_trajectory.csv'') = p)"
  by (induction items)
     (auto simp: csv_written_def split: option.splits prod.splits)

lemma csv_member_emit:
  "(sid, rows) \<in> set items \<Longrightarrow> sid \<in> W \<Longrightarrow>
   WriteCsv (path_join rt (sid @ ''_trajectory.csv'')) rows
     \<in> set (emit_trajectories py a s rt W items)"
  by (induction items) (auto split: option.splits prod.splits)

lemma pose_has_data_iff:
  "pose_has_data row
     \<longleftrightarrow> (\<exists>key \<in> set POSE_DATA_FIELDS. dict_get row key \<noteq> PNone \<and> dict_get row key \<noteq> PStr [])"
proof -
  have "any_populated row keys
      \<longleftrightarrow> (\<exists>key \<in> set keys. dict_get row key \<noteq> PNone \<and> dict_get row key \<noteq> PStr [])" for keys
    by (induction keys) (auto simp: Let_def)
  then show ?thesis by (simp add: pose_has_data_def)
qed

lemma sequence_rows_member:
  assumes "(sid, rows) \<in> set (sequence_rows a rs s m out)"
  shows "rows = map (frame_row a s m out)
                  (filter (\<lambda>fr. frame_sequence_id m fr = sid) (enumerate_from 1 (sorted_records rs)))"
    and "\<exists>k. sid = sequence_name k"
  using assms by (auto simp: sequence_rows_grouped frame_sequence_id_name)

lemma sequence_name_csv_inj:
  "path_join rt (sequence_name j @ t) = path_join rt (sequence_name k @ t)
     \<Longrightarrow> sequence_name j = sequence_name k"
  using path_join_inj [of "sequence_name j @ t" "sequence_name k @ t" rt]
  by (simp add: sequence_name_def)

text \<open>
  C6. For every sequence of an acquisition, the trajectory table is written if and only
  if one of the sequence's rows has, in one of the seven pose fields, a value that is
  neither \<open>None\<close> nor the empty string; the table then holds the rows of the sequence.
\<close>

theorem trajectory_emission:
  assumes m: "m \<noteq> 0" and seq: "(sid, rows) \<in> set (sequence_rows a rs s m out)"
  shows "(csv_written (acquisition_writes py a rs s m out) (trajectory_csv_path out a sid)
          \<longleftrightarrow> (\<exists>row \<in> set rows.
                \<exists>key \<in> set [''timestamp'', ''gps_latitude'', ''gps_longitude'',
                             ''gps_altitude_m'', ''heading_deg'', ''pitch_deg'', ''roll_deg''].
                  dict_get row key \<noteq> PNone \<and> dict_get row key \<noteq> PStr []))
       \<and> (csv_written (acquisition_writes py a rs s m out) (trajectory_csv_path out a sid)
            \<longrightarrow> WriteCsv (trajectory_csv_path out a sid) rows
                  \<in> set (acquisition_writes py a rs s m out))"
proof -
  let ?W = "sequences_with_pose (rendered a rs s m out)"
  let ?rt = "path_join (path_join out a) ''02_poses''"
  have written: "csv_written (acquisition_writes py a rs s m out) (trajectory_csv_path out a sid)
      \<longleftrightarrow> sid \<in> ?W"
  proof
    assume "csv_written (acquisition_writes py a rs s m out) (trajectory_csv_path out a sid)"
    then obtain item where item: "item \<in> set (sequence_rows a rs s m out)" "fst item \<in> ?W"
      "path_join ?rt (fst item @ ''_trajectory.csv'') = path_join ?rt (sid @ ''_trajectory.csv'')"
      unfolding acquisition_writes_parts [OF m] trajectory_csv_path_def
      by (auto simp: csv_written_emit)
    have "(fst item, snd item) \<in> set (sequence_rows a rs s m out)" using item(1) by simp
    then obtain j where j: "fst item = sequence_name j"
      using sequence_rows_member(2) by blast
    obtain k where k: "sid = sequence_name k"
      using sequence_rows_member(2) [OF seq] by auto
    have "fst item = sid" using item(3) sequence_name_csv_inj unfolding j k by blast
    then show "sid \<in> ?W" using item(2) by simp
  next
    assume "sid \<in> ?W"
    then show "csv_written (acquisition_writes py a rs s m out) (trajectory_csv_path out a sid)"
      unfolding acquisition_writes_parts [OF m] trajectory_csv_path_def
      using seq by (auto simp: csv_written_emit intro!: bexI [of _ "(sid, rows)"])
  qed
  have "sid \<in> ?W \<longleftrightarrow> (\<exists>row \<in> set rows. pose_has_data row)"
    unfolding sequences_with_pose_rendered sequence_rows_member(1) [OF seq] by auto
  moreover have "WriteCsv (trajectory_csv_path out a sid) rows
      \<in> set (acquisition_writes py a rs s m out)" if "sid \<in> ?W"
    unfolding acquisition_writes_parts [OF m] trajectory_csv_path_def
    using csv_member_emit [OF seq that] by simp
  ultimately show ?thesis
    using written by (simp add: pose_has_data_iff POSE_DATA_FIELDS_def)
qed

theorem trajectory_emission_witness:
  "(''S001'', [frame_row ''20240101-Nyon'' ''Cam'' 10 ''/out''
                 (1, gps_record ''/in/a.jpg'' ''20240101'' 1 46 6)])
     \<in> set (sequence_rows ''20240101-Nyon'' [gps_record ''/in/a.jpg'' ''20240101'' 1 46 6]
               ''Cam'' 10 ''/out'')
   \<and> csv_written
        (acquisition_writes toy_stdlib ''20240101-Nyon''
           [gps_record ''/in/a.jpg'' ''20240101'' 1 46 6] ''Cam'' 10 ''/out'')
        (trajectory_csv_path ''/out'' ''20240101-Nyon'' ''S001'')"
proof -
  have m: "(10::int) \<noteq> 0" by simp
  have n: "frame_sequence_id 10 (1, gps_record ''/in/a.jpg'' ''20240101'' 1 46 6) = ''S001''"
    by code_simp
  have seq: "(''S001'', [frame_row ''20240101-Nyon'' ''Cam'' 10 ''/out''
                 (1, gps_record ''/in/a.jpg'' ''20240101'' 1 46 6)])
     \<in> set (sequence_rows ''20240101-Nyon'' [gps_record ''/in/a.jpg'' ''20240101'' 1 46 6]
               ''Cam'' 10 ''/out'')"
    by (simp add: sequence_rows_grouped sorted_records_def first_seen_def n)
  have lat: "dict_get (frame_row ''20240101-Nyon'' ''Cam'' 10 ''/out''
                 (1, gps_record ''/in/a.jpg'' ''20240101'' 1 46 6)) ''gps_latitude'' = PFloat 46"
    by (simp add: frame_row_def sequence_ids_def build_pose_entry_def dict_get_def Let_def
        gps_record_def plain_record_def)
  show ?thesis
    using seq lat trajectory_emission [OF m seq, of toy_stdlib] by simp
qed

section \<open>GeoJSON tracks\<close>

lemma track_positions_eq:
  "track_positions py rows acc
     = (fst acc @ map (row_position py) (qualifying py rows),
        snd acc + length (filter (has_altitude py) (qualifying py rows)))"
  by (induction rows arbitrary: acc)
     (auto simp: Let_def qualifying_def has_position_def has_altitude_def row_position_def)

lemma filter_all_iff: "length (filter P xs) = length xs \<longleftrightarrow> list_all P xs"
proof (induction xs)
  case Nil
  show ?case by simp
next
  case (Cons x xs)
  have le: "length (filter P xs) \<le> length xs" by simp
  show ?case
  proof (cases "P x")
    case True
    then show ?thesis using Cons by simp
  next
    case False
    have "length (filter P xs) \<noteq> Suc (length xs)" using le by linarith
    then show ?thesis using False by simp
  qed
qed

lemma coordinates_eq:
  "map (coordinate (list_all (has_altitude py) (qualifying py rows)))
       (map (row_position py) (qualifying py rows))
     = track_coordinates py rows"
proof (cases "list_all (has_altitude py) (qualifying py rows)")
  case True
  then have "\<forall>row \<in> set (qualifying py rows).
      parse_float py (dict_get row ''gps_altitude_m'') \<noteq> None"
    by (simp add: list_all_iff has_altitude_def)
  then show ?thesis using True
    by (auto simp: track_coordinates_def coordinate_def row_position_def split: option.splits)
next
  case False
  then show ?thesis
    by (auto simp: track_coordinates_def coordinate_def row_position_def split: option.splits)
qed

lemma coordinates_all:
  "list_all (has_altitude py) (qualifying py rows) \<Longrightarrow>
   map (coordinate True \<circ> row_position py) (qualifying py rows) = track_coordinates py rows"
  using coordinates_eq [of py rows] by simp

lemma coordinates_flat:
  "\<not> list_all (has_altitude py) (qualifying py rows) \<Longrightarrow>
   map (coordinate False \<circ> row_position py) (qualifying py rows) = track_coordinates py rows"
  using coordinates_eq [of py rows] by simp

lemma track_coordinates_length:
  "length (track_coordinates py rows) = length (qualifying py rows)"
  by (simp add: track_coordinates_def)

lemma build_geojson_track_eq:
  "build_geojson_track py rows a sid s
     = (if length (qualifying py rows) < 2 then None
        else Some (track_document py rows a sid s))"
proof -
  have inc: "(length (filter (has_altitude py) (qualifying py rows))
        = length (qualifying py rows))
      = list_all (has_altitude py) (qualifying py rows)"
    by (rule filter_all_iff)
  show ?thesis
    by (simp add: build_geojson_track_def track_positions_eq Let_def inc coordinates_all
        coordinates_flat track_document_def track_coordinates_length)
qed

lemma json_not_geojson: "u @ ''.json'' \<noteq> v @ ''.geojson''"
proof
  assume "u @ ''.json'' = v @ ''.geojson''"
  then have "rev (u @ ''.json'') = rev (v @ ''.geojson'')" by simp
  then show False by simp
qed

lemma path_join_json_not_geojson:
  "path_join x (y @ ''.json'') \<noteq> path_join x' (y' @ ''.geojson'')"
proof -
  obtain u where u: "path_join x (y @ ''.json'') = (u @ y) @ ''.json''"
    using path_join_suffix [of x "y @ ''.json''"] by auto
  obtain v where v: "path_join x' (y' @ ''.geojson'') = (v @ y') @ ''.geojson''"
    using path_join_suffix [of x' "y' @ ''.geojson''"] by auto
  show ?thesis unfolding u v by (rule json_not_geojson)
qed

lemma json_written_append [simp]:
  "json_written (xs @ ys) p \<longleftrightarrow> json_written xs p \<or> json_written ys p"
  by (auto simp: json_written_def list_ex_iff)

lemma json_written_descriptors [simp]:
  "\<not> json_written (descriptor_writes r rs s) (trajectory_geojson_path out a sid)"
  using path_join_json_not_geojson [of _ "''coordinate_systems''" _ "sid @ ''_trajectory''"]
    path_join_json_not_geojson [of _ "''intrinsics''" _ "sid @ ''_trajectory''"]
  by (simp add: json_written_def descriptor_writes_def trajectory_geojson_path_def
      split: option.splits)

lemma json_written_frames [simp]:
  "\<not> json_written (concat (map (frame_writes a s m out) frs)) (trajectory_geojson_path out' a' sid)"
proof (induction frs)
  case Nil
  show ?case by (simp add: json_written_def)
next
  case (Cons fr frs)
  have "\<not> json_written (frame_writes a s m out fr) (trajectory_geojson_path out' a' sid)"
    using path_join_json_not_geojson [of _ _ _ "sid @ ''_trajectory''"]
    by (simp add: json_written_def frame_writes_def trajectory_geojson_path_def
        split: prod.splits)
  then show ?case using Cons by simp
qed

lemma track_document_truthy [simp]: "truthy (track_document py rows a sid s)"
  by (simp add: track_document_def)

lemma json_written_emit:
  "json_written (emit_trajectories py a s rt W items) p
     \<longleftrightarrow> (\<exists>item \<in> set items. fst item \<in> W \<and> 2 \<le> length (qualifying py (snd item))
            \<and> path_join rt (fst item @ ''_trajectory.geojson'') = p)"
  by (induction items)
     (auto simp: json_written_def build_geojson_track_eq split: prod.splits)

lemma json_member_emit:
  "(sid, rows) \<in> set items \<Longrightarrow> sid \<in> W \<Longrightarrow> 2 \<le> length (qualifying py rows) \<Longrightarrow>
   WriteJson (path_join rt (sid @ ''_trajectory.geojson'')) (track_document py rows a sid s)
     \<in> set (emit_trajectories py a s rt W items)"
proof (induction items)
  case Nil
  then show ?case by simp
next
  case (Cons item items)
  obtain k rs where item: "item = (k, rs)" by (cases item)
  show ?case using Cons by (auto simp: build_geojson_track_eq item)
qed

lemma sequence_rows_distinct: "distinct (map fst (sequence_rows a rs s m out))"
  by (simp add: sequence_rows_grouped comp_def)

lemma csv_written_iff:
  assumes m: "m \<noteq> 0" and seq: "(sid, rows) \<in> set (sequence_rows a rs s m out)"
  shows "csv_written (acquisition_writes py a rs s m out) (trajectory_csv_path out a sid)
      \<longleftrightarrow> sid \<in> sequences_with_pose (rendered a rs s m out)"
proof
  let ?W = "sequences_with_pose (rendered a rs s m out)"
  let ?rt = "path_join (path_join out a) ''02_poses''"
  assume "csv_written (acquisition_writes py a rs s m out) (trajectory_csv_path out a sid)"
  then obtain item where item: "item \<in> set (sequence_rows a rs s m out)" "fst item \<in> ?W"
    "path_join ?rt (fst item @ ''_trajectory.csv'') = path_join ?rt (sid @ ''_trajectory.csv'')"
    unfolding acquisition_writes_parts [OF m] trajectory_csv_path_def
    by (auto simp: csv_written_emit)
  have "(fst item, snd item) \<in> set (sequence_rows a rs s m out)" using item(1) by simp
  then obtain j where j: "fst item = sequence_name j"
    using sequence_rows_member(2) by blast
  obtain k where k: "sid = sequence_name k"
    using sequence_rows_member(2) [OF seq] by auto
  have "fst item = sid" using item(3) sequence_name_csv_inj unfolding j k by blast
  then show "sid \<in> ?W" using item(2) by simp
next
  assume "sid \<in> sequences_with_pose (rendered a rs s m out)"
  then show "csv_written (acquisition_writes py a rs s m out) (trajectory_csv_path out a sid)"
    unfolding acquisition_writes_parts [OF m] trajectory_csv_path_def
    using seq by (auto simp: csv_written_emit intro!: bexI [of _ "(sid, rows)"])
qed

lemma json_written_iff:
  assumes m: "m \<noteq> 0" and seq: "(sid, rows) \<in> set (sequence_rows a rs s m out)"
  shows "json_written (acquisition_writes py a rs s m out) (trajectory_geojson_path out a sid)
      \<longleftrightarrow> sid \<in> sequences_with_pose (rendered a rs s m out) \<and> 2 \<le> length (qualifying py rows)"
proof
  let ?W = "sequences_with_pose (rendered a rs s m out)"
  let ?rt = "path_join (path_join out a) ''02_poses''"
  assume "json_written (acquisition_writes py a rs s m out) (trajectory_geojson_path out a sid)"
  then have "json_written (emit_trajectories py a s ?rt ?W (sequence_rows a rs s m out))
      (trajectory_geojson_path out a sid)"
    unfolding acquisition_writes_parts [OF m] by simp
  then obtain item where item: "item \<in> set (sequence_rows a rs s m out)" "fst item \<in> ?W"
    "2 \<le> length (qualifying py (snd item))"
    "path_join ?rt (fst item @ ''_trajectory.geojson'')
       = path_join ?rt (sid @ ''_trajectory.geojson'')"
    unfolding trajectory_geojson_path_def by (auto simp: json_written_emit)
  have mem: "(fst item, snd item) \<in> set (sequence_rows a rs s m out)" using item(1) by simp
  then obtain j where j: "fst item = sequence_name j"
    using sequence_rows_member(2) by blast
  obtain k where k: "sid = sequence_name k"
    using sequence_rows_member(2) [OF seq] by auto
  have e: "fst item = sid" using item(4) sequence_name_csv_inj unfolding j k by blast
  then have "snd item = rows"
    using mem seq sequence_rows_distinct [of a rs s m out] by (metis eq_key_imp_eq_value)
  then show "sid \<in> ?W \<and> 2 \<le> length (qualifying py rows)" using item(2,3) e by simp
next
  let ?W = "sequences_with_pose (rendered a rs s m out)"
  assume "sid \<in> ?W \<and> 2 \<le> length (qualifying py rows)"
  then show "json_written (acquisition_writes py a rs s m out) (trajectory_geojson_path out a sid)"
    unfolding acquisition_writes_parts [OF m] trajectory_geojson_path_def
    using seq by (auto simp: json_written_emit intro!: bexI [of _ "(sid, rows)"])
qed

text \<open>
  C7. For every sequence, the GeoJSON track is written if and only if the trajectory
  table is written and at least two rows give both a latitude and a longitude that parse
  as floats. The document lists those rows in row order; every coordinate carries the
  altitude, and the properties carry the altitude units, if and only if every such row
  has an altitude that parses; otherwise every coordinate is two-dimensional.
\<close>

theorem geojson_emission:
  assumes m: "m \<noteq> 0" and seq: "(sid, rows) \<in> set (sequence_rows a rs s m out)"
  shows "(json_written (acquisition_writes py a rs s m out) (trajectory_geojson_path out a sid)
          \<longleftrightarrow> csv_written (acquisition_writes py a rs s m out) (trajectory_csv_path out a sid)
              \<and> 2 \<le> length (qualifying py rows))
       \<and> (json_written (acquisition_writes py a rs s m out) (trajectory_geojson_path out a sid)
            \<longrightarrow> WriteJson (trajectory_geojson_path out a sid) (track_document py rows a sid s)
                  \<in> set (acquisition_writes py a rs s m out))
       \<and> build_geojson_track py rows a sid s
           = (if length (qualifying py rows) < 2 then None
              else Some (track_document py rows a sid s))"
proof -
  have "WriteJson (trajectory_geojson_path out a sid) (track_document py rows a sid s)
      \<in> set (acquisition_writes py a rs s m out)"
    if "sid \<in> sequences_with_pose (rendered a rs s m out)" "2 \<le> length (qualifying py rows)"
    unfolding acquisition_writes_parts [OF m] trajectory_geojson_path_def
    using json_member_emit [OF seq that] by simp
  then show ?thesis
    using csv_written_iff [OF m seq, of py] json_written_iff [OF m seq, of py]
      build_geojson_track_eq [of py rows a sid s]
    by blast
qed

lemma gps_record_row:
  "dict_get (frame_row a s m out (i, gps_record p d t lat lon)) ''gps_latitude'' = PFloat lat
   \<and> dict_get (frame_row a s m out (i, gps_record p d t lat lon)) ''gps_longitude'' = PFloat lon"
  by (simp add: frame_row_def sequence_ids_def build_pose_entry_def dict_get_def Let_def
      gps_record_def plain_record_def)

theorem geojson_emission_witness:
  "(''S001'',
    [frame_row ''20240101-Nyon'' ''Cam'' 10 ''/out'' (1, gps_record ''/in/a.jpg'' ''20240101'' 1 46 6),
     frame_row ''20240101-Nyon'' ''Cam'' 10 ''/out'' (2, gps_record ''/in/b.jpg'' ''20240101'' 2 47 7)])
     \<in> set (sequence_rows ''20240101-Nyon''
               [gps_record ''/in/a.jpg'' ''20240101'' 1 46 6,
                gps_record ''/in/b.jpg'' ''20240101'' 2 47 7] ''Cam'' 10 ''/out'')
   \<and> json_written
        (acquisition_writes toy_stdlib ''20240101-Nyon''
           [gps_record ''/in/a.jpg'' ''20240101'' 1 46 6,
            gps_record ''/in/b.jpg'' ''20240101'' 2 47 7] ''Cam'' 10 ''/out'')
        (trajectory_geojson_path ''/out'' ''20240101-Nyon'' ''S001'')"
proof -
  let ?g1 = "gps_record ''/in/a.jpg'' ''20240101'' 1 46 6"
  let ?g2 = "gps_record ''/in/b.jpg'' ''20240101'' 2 47 7"
  let ?rows = "[frame_row ''20240101-Nyon'' ''Cam'' 10 ''/out'' (1, ?g1),
                frame_row ''20240101-Nyon'' ''Cam'' 10 ''/out'' (2, ?g2)]"
  have m: "(10::int) \<noteq> 0" by simp
  have srt: "sorted_records [?g1, ?g2] = [?g1, ?g2]"
    by (simp add: sorted_records_def record_sort_key_def gps_record_def plain_record_def)
  have n: "frame_sequence_id 10 (1, ?g1) = ''S001''" "frame_sequence_id 10 (2, ?g2) = ''S001''"
    by code_simp+
  have seq: "(''S001'', ?rows)
      \<in> set (sequence_rows ''20240101-Nyon'' [?g1, ?g2] ''Cam'' 10 ''/out'')"
    by (simp add: sequence_rows_grouped srt first_seen_def n)
  have q: "qualifying toy_stdlib ?rows = ?rows"
    by (simp add: qualifying_def has_position_def gps_record_row)
  have "pose_has_data (frame_row ''20240101-Nyon'' ''Cam'' 10 ''/out'' (1, ?g1))"
    unfolding pose_has_data_iff
    by (rule bexI [of _ "''gps_latitude''"]) (simp_all add: gps_record_row POSE_DATA_FIELDS_def)
  then have w: "''S001'' \<in> sequences_with_pose
      (rendered ''20240101-Nyon'' [?g1, ?g2] ''Cam'' 10 ''/out'')"
    unfolding sequences_with_pose_rendered srt using n(1) by auto
  have c: "csv_written
      (acquisition_writes toy_stdlib ''20240101-Nyon'' [?g1, ?g2] ''Cam'' 10 ''/out'')
      (trajectory_csv_path ''/out'' ''20240101-Nyon'' ''S001'')"
    using csv_written_iff [OF m seq, of toy_stdlib] w by simp
  show ?thesis
    using seq c q geojson_emission [OF m seq, of toy_stdlib] by simp
qed

section \<open>The order of the run\<close>

lemma copies_append [simp]: "copies (xs @ ys) = copies xs @ copies ys"
  by (induction xs rule: copies.induct) simp_all

lemma copies_descriptors [simp]: "copies (descriptor_writes r rs s) = []"
  by (simp add: descriptor_writes_def split: option.splits)

lemma copies_emit [simp]: "copies (emit_trajectories py a s rt W items) = []"
  by (induction items) (auto split: option.splits prod.splits)

lemma copies_frame:
  "copies (frame_writes a s m out fr)
     = [(src (snd fr),
         image_path out a s (fst (sequence_ids (fst fr) m))
           (fst (snd (sequence_ids (fst fr) m))) (ext (snd fr)))]"
  by (simp add: frame_writes_def image_path_def split: prod.splits)

lemma copies_frames:
  "copies (concat (map (frame_writes a s m out) frs))
     = map (\<lambda>fr. (src (snd fr),
                   image_path out a s (fst (sequence_ids (fst fr) m))
                     (fst (snd (sequence_ids (fst fr) m))) (ext (snd fr)))) frs"
  by (induction frs) (simp_all add: copies_frame)

lemma copies_acquisition:
  "m \<noteq> 0 \<Longrightarrow> copies (acquisition_writes py a rs s m out)
     = map (\<lambda>fr. (src (snd fr),
                   image_path out a s (fst (sequence_ids (fst fr) m))
                     (fst (snd (sequence_ids (fst fr) m))) (ext (snd fr))))
         (enumerate_from 1 (sorted_records rs))"
  by (simp add: acquisition_writes_parts copies_frames)

text \<open>
  C3. Within an acquisition the records are sorted by the key of the specification:
  records with an epoch value first, by that value, the others after, by modification
  time, ties by source path. The sorted list is a rearrangement of the input, and
  \<open>process_acquisition\<close> copies the images in that order, the image at position \<open>p\<close>
  to the path that carries the identifiers of \<open>sequence_ids p max_per_seq\<close>. With distinct
  source paths the key is injective, and any rearrangement of the input gives the same
  sorted list, the same identifiers and the same files.
\<close>

theorem deterministic_order:
  "(record_sort_key r \<le> record_sort_key r' \<longleftrightarrow> sorts_before r r')
   \<and> sorted_wrt sorts_before (sorted_records rs)
   \<and> mset (sorted_records rs) = mset rs
   \<and> (distinct (map src rs) \<longrightarrow> inj_on record_sort_key (set rs))
   \<and> map fst (enumerate_from 1 (sorted_records rs)) = [1..int (length rs)]
   \<and> map snd (enumerate_from 1 (sorted_records rs)) = sorted_records rs
   \<and> (m \<noteq> 0 \<longrightarrow>
        process_acquisition py a rs s m out
          = Inr (length rs, acquisition_writes py a rs s m out)
        \<and> copies (acquisition_writes py a rs s m out)
            = map (\<lambda>fr. (src (snd fr),
                          image_path out a s (fst (sequence_ids (fst fr) m))
                            (fst (snd (sequence_ids (fst fr) m))) (ext (snd fr))))
                (enumerate_from 1 (sorted_records rs))
        \<and> map fst (copies (acquisition_writes py a rs s m out)) = map src (sorted_records rs))
   \<and> (distinct (map src rs) \<and> mset rs' = mset rs \<longrightarrow>
        sorted_records rs' = sorted_records rs
        \<and> assignment m rs' = assignment m rs
        \<and> process_acquisition py a rs' s m out = process_acquisition py a rs s m out)"
proof -
  have "sorted_records rs' = sorted_records rs
      \<and> assignment m rs' = assignment m rs
      \<and> process_acquisition py a rs' s m out = process_acquisition py a rs s m out"
    if "distinct (map src rs)" "mset rs' = mset rs"
  proof -
    have e: "sorted_records rs' = sorted_records rs"
      using that by (rule sorted_records_permuted)
    then show ?thesis
      using process_acquisition_sorted [of py a rs' s m out]
        process_acquisition_sorted [of py a rs s m out]
      by (simp add: assignment_def)
  qed
  moreover have "map fst (copies (acquisition_writes py a rs s m out)) = map src (sorted_records rs)"
    if "m \<noteq> 0"
  proof -
    have "map (\<lambda>fr. src (snd fr)) (enumerate_from i xs) = map src xs"
      for i and xs :: "image_record list"
      by (induction xs arbitrary: i) simp_all
    then show ?thesis using that by (simp add: copies_acquisition comp_def)
  qed
  moreover have "map fst (enumerate_from 1 (sorted_records rs)) = [1..int (length rs)]"
    by (simp add: enumerate_from_map_fst sorted_records_def)
  ultimately show ?thesis
    using sort_key_order sorted_records_sorted sorted_records_mset sort_key_inj
      enumerate_from_map_snd [of 1 "sorted_records rs"]
      process_acquisition_returns [of m py a rs s out] copies_acquisition [of m py a rs s out]
    by blast
qed

theorem deterministic_order_witness:
  "distinct (map src [plain_record ''/in/b.jpg'' ''20240101'' 5,
                      posed_record ''/in/a.jpg'' ''20240101'' 9 7])
   \<and> mset [posed_record ''/in/a.jpg'' ''20240101'' 9 7, plain_record ''/in/b.jpg'' ''20240101'' 5]
       = mset [plain_record ''/in/b.jpg'' ''20240101'' 5, posed_record ''/in/a.jpg'' ''20240101'' 9 7]
   \<and> sorted_records [posed_record ''/in/a.jpg'' ''20240101'' 9 7,
                      plain_record ''/in/b.jpg'' ''20240101'' 5]
       = sorted_records [plain_record ''/in/b.jpg'' ''20240101'' 5,
                         posed_record ''/in/a.jpg'' ''20240101'' 9 7]
   \<and> sorted_records [plain_record ''/in/b.jpg'' ''20240101'' 5,
                      posed_record ''/in/a.jpg'' ''20240101'' 9 7]
       = [posed_record ''/in/a.jpg'' ''20240101'' 9 7, plain_record ''/in/b.jpg'' ''20240101'' 5]
   \<and> copies (acquisition_writes toy_stdlib ''20240101-Nyon''
                [plain_record ''/in/b.jpg'' ''20240101'' 5,
                 posed_record ''/in/a.jpg'' ''20240101'' 9 7] ''Cam'' 10 ''/out'')
       = [(''/in/a.jpg'', ''/out/20240101-Nyon/01_images/S001/20240101-Nyon_S001_Cam_000001.jpg''),
          (''/in/b.jpg'', ''/out/20240101-Nyon/01_images/S001/20240101-Nyon_S001_Cam_000002.jpg'')]"
proof -
  let ?rs = "[plain_record ''/in/b.jpg'' ''20240101'' 5,
              posed_record ''/in/a.jpg'' ''20240101'' 9 7]"
  let ?rs' = "[posed_record ''/in/a.jpg'' ''20240101'' 9 7,
               plain_record ''/in/b.jpg'' ''20240101'' 5]"
  have d: "distinct (map src ?rs)"
    by (simp add: plain_record_def posed_record_def)
  have p: "mset ?rs' = mset ?rs" by simp
  have s: "sorted_records ?rs = ?rs'"
    by (simp add: sorted_records_def record_sort_key_def plain_record_def posed_record_def)
  have m: "(10::int) \<noteq> 0" by simp
  have i: "image_path ''/out'' ''20240101-Nyon'' ''Cam'' (fst (sequence_ids 1 10))
             (fst (snd (sequence_ids 1 10))) ''.jpg''
           = ''/out/20240101-Nyon/01_images/S001/20240101-Nyon_S001_Cam_000001.jpg''"
    "image_path ''/out'' ''20240101-Nyon'' ''Cam'' (fst (sequence_ids 2 10))
             (fst (snd (sequence_ids 2 10))) ''.jpg''
           = ''/out/20240101-Nyon/01_images/S001/20240101-Nyon_S001_Cam_000002.jpg''"
    by code_simp+
  have f: "src (posed_record ''/in/a.jpg'' ''20240101'' 9 7) = ''/in/a.jpg''"
    "src (plain_record ''/in/b.jpg'' ''20240101'' 5) = ''/in/b.jpg''"
    "ext (posed_record ''/in/a.jpg'' ''20240101'' 9 7) = ''.jpg''"
    "ext (plain_record ''/in/b.jpg'' ''20240101'' 5) = ''.jpg''"
    by (simp_all add: plain_record_def posed_record_def)
  have c: "copies (acquisition_writes toy_stdlib ''20240101-Nyon'' ?rs ''Cam'' 10 ''/out'')
       = [(''/in/a.jpg'', ''/out/20240101-Nyon/01_images/S001/20240101-Nyon_S001_Cam_000001.jpg''),
          (''/in/b.jpg'', ''/out/20240101-Nyon/01_images/S001/20240101-Nyon_S001_Cam_000002.jpg'')]"
    using m deterministic_order [of _ _ ?rs 10 toy_stdlib "''20240101-Nyon''" "''Cam''" "''/out''" ?rs']
    unfolding s by (simp add: i f)
  show ?thesis
    using d p s c
      deterministic_order [of _ _ ?rs 10 toy_stdlib "''20240101-Nyon''" "''Cam''" "''/out''" ?rs']
    by blast
qed

section \<open>Pose values over embedded values\<close>

lemma map_of_dict_set: "map_of (dict_set d k v) = (map_of d)(k \<mapsto> v)"
  by (induction d) (auto simp: fun_eq_iff)

lemma dict_get_dict_set:
  "dict_get (dict_set d k v) k' = (if k' = k then v else dict_get d k')"
  by (simp add: dict_get_def map_of_dict_set)

lemma dict_get_override:
  "dict_get (override d k v) k' = (if k' = k \<and> v \<noteq> PNone then v else dict_get d k')"
  by (simp add: override_def dict_get_dict_set)

lemma map_of_prune_items:
  "map_of d k = Some v \<Longrightarrow> \<not> dropped (prune_none v) \<Longrightarrow>
   map_of (prune_items d) k = Some (prune_none v)"
  by (induction d) (auto simp: Let_def)

lemma dict_get_prune_items:
  "map_of d k = Some v \<Longrightarrow> \<not> dropped (prune_none v) \<Longrightarrow>
   dict_get (prune_items d) k = prune_none v"
  by (simp add: dict_get_def map_of_prune_items)

lemma dict_get_Some: "dict_get d k \<noteq> PNone \<Longrightarrow> map_of d k = Some (dict_get d k)"
  by (auto simp: dict_get_def split: option.splits)

lemma dict_get_prune_float:
  "dict_get d k = PFloat x \<Longrightarrow> dict_get (prune_items d) k = PFloat x"
  using dict_get_prune_items [of d k "PFloat x"] dict_get_Some [of d k] by simp

lemma dict_get_prune_str:
  "dict_get d k = PStr t \<Longrightarrow> dict_get (prune_items d) k = PStr t"
  using dict_get_prune_items [of d k "PStr t"] dict_get_Some [of d k] by simp

lemma dict_get_nonempty: "dict_get d k \<noteq> PNone \<Longrightarrow> d \<noteq> []"
  by (auto simp: dict_get_def)

lemma apply_csv_overrides_merged:
  "gps (apply_csv_overrides d (Some row)) = Some (merged d row)"
  by (simp add: apply_csv_overrides_def merged_def Let_def)

lemma merged_values:
  "gps_latitude row = Some x \<Longrightarrow> dict_get (merged d row) ''latitude_deg'' = PFloat x"
  "gps_longitude row = Some y \<Longrightarrow> dict_get (merged d row) ''longitude_deg'' = PFloat y"
  "gps_altitude_m row = Some z \<Longrightarrow> dict_get (merged d row) ''altitude_m'' = PFloat z"
  "timestamp row = Some t \<Longrightarrow> dict_get (merged d row) ''timestamp_utc'' = PStr t"
  unfolding merged_def
  by (rule dict_get_prune_float dict_get_prune_str,
      simp add: dict_get_override opt_float_def opt_str_def)+

lemma merged_pruned: "prune_items (merged d row) = merged d row"
  unfolding merged_def by (rule pruned_fixed(2)) (rule prune_none_pruned(2))

lemma build_record_gps:
  assumes "map_of lookup (normalize_image_key (path entry)) = Some row"
  shows "gps_subtree (build_record py rd lookup entry)
           = merged (snd (extract_exif_metadata py (rd (path entry)))) row"
    and "csv_pose (build_record py rd lookup entry) = Some row"
  using assms
  by (simp_all add: build_record_def gps_subtree_def Let_def apply_csv_overrides_merged
      split: prod.splits)

lemma payload_gps:
  assumes "gps_subtree info \<noteq> []" "prune_items (gps_subtree info) = gps_subtree info"
  shows "py_get (build_annotation_payload info a sid s fi) ''gps'' = PDict (gps_subtree info)"
proof -
  obtain g where g: "gps (derived info) = Some g" "gps_subtree info = g"
    using assms(1) by (auto simp: gps_subtree_def split: option.splits)
  have "\<not> dropped (prune_none (PDict g))" "prune_none (PDict g) = PDict g"
    using assms g by simp_all
  then show ?thesis
    unfolding build_annotation_payload_def Let_def prune_none.simps py_get_def pyval.case g
    by (subst dict_get_prune_items [of _ _ "PDict g"]) (simp_all add: opt_dict_def)
qed

lemma payload_capture:
  assumes "dict_get (gps_subtree info) ''timestamp_utc'' = PStr t"
  shows "py_get (py_get (build_annotation_payload info a sid s fi) ''capture'')
           ''gps_timestamp_utc'' = PStr t"
proof -
  have "dict_get (gps_subtree info) ''timestamp_utc'' \<noteq> PNone" using assms by simp
  then have "gps_subtree info \<noteq> []" by (rule dict_get_nonempty)
  then obtain g where g: "gps (derived info) = Some g" "gps_subtree info = g" "g \<noteq> []"
    by (auto simp: gps_subtree_def split: option.splits)
  define c where "c = [(''datetime_original'', opt_str (datetime_original (derived info))),
             (''gps_timestamp_utc'', PStr t)]"
  have "dict_get c ''gps_timestamp_utc'' = PStr t" by (simp add: c_def dict_get_def)
  then have get: "dict_get (prune_items c) ''gps_timestamp_utc'' = PStr t"
    by (rule dict_get_prune_str)
  then have "dict_get (prune_items c) ''gps_timestamp_utc'' \<noteq> PNone" by simp
  then have "prune_items c \<noteq> []" by (rule dict_get_nonempty)
  then have nd: "\<not> dropped (prune_none (PDict c))" by simp
  have ts: "dict_get g ''timestamp_utc'' = PStr t" using assms g by simp
  have "py_get (build_annotation_payload info a sid s fi) ''capture'' = prune_none (PDict c)"
    unfolding build_annotation_payload_def Let_def prune_none.simps(1) py_get_def pyval.case g
      option.case
    using g(3) nd ts
    by (subst dict_get_prune_items [of _ _ "PDict c"]) (simp_all add: c_def)
  then show ?thesis using get by (simp add: py_get_def)
qed

lemma pose_entry_gps:
  "dict_get (build_pose_entry info fi nm) ''gps_latitude'' = dict_get (gps_subtree info) ''latitude_deg''"
  "dict_get (build_pose_entry info fi nm) ''gps_longitude'' = dict_get (gps_subtree info) ''longitude_deg''"
  "dict_get (build_pose_entry info fi nm) ''gps_altitude_m'' = dict_get (gps_subtree info) ''altitude_m''"
  by (simp_all add: build_pose_entry_def gps_subtree_def Let_def dict_get_def)

lemma frame_writes_member:
  assumes m: "m \<noteq> 0" and fr: "fr \<in> set (enumerate_from 1 (sorted_records rs))"
  shows "set (frame_writes a s m out fr) \<subseteq> set (acquisition_writes py a rs s m out)"
  unfolding acquisition_writes_parts [OF m] using fr by auto

lemma frame_writes_annotation:
  "WriteJson
     (annotation_path out a s (fst (sequence_ids (fst fr) m)) (fst (snd (sequence_ids (fst fr) m))))
     (build_annotation_payload (snd fr) a (fst (sequence_ids (fst fr) m)) s
        (snd (snd (sequence_ids (fst fr) m))))
   \<in> set (frame_writes a s m out fr)"
  by (simp add: frame_writes_def annotation_path_def case_prod_beta)

lemma frame_row_member:
  assumes fr: "fr \<in> set (enumerate_from 1 (sorted_records rs))"
  shows "\<exists>rows. (fst (sequence_ids (fst fr) m), rows) \<in> set (sequence_rows a rs s m out)
           \<and> frame_row a s m out fr \<in> set rows"
proof -
  let ?k = "frame_sequence_id m fr"
  let ?rows = "map (frame_row a s m out)
      (filter (\<lambda>x. frame_sequence_id m x = ?k) (enumerate_from 1 (sorted_records rs)))"
  have "(?k, ?rows) \<in> set (sequence_rows a rs s m out)"
    unfolding sequence_rows_grouped using fr by auto
  moreover have "frame_row a s m out fr \<in> set ?rows" using fr by auto
  ultimately show ?thesis unfolding frame_sequence_id_def by blast
qed

lemma frame_row_entry:
  "frame_row a s m out fr
     = build_pose_entry (snd fr) (snd (snd (sequence_ids (fst fr) m)))
         (basename (image_path out a s (fst (sequence_ids (fst fr) m))
                      (fst (snd (sequence_ids (fst fr) m))) (ext (snd fr))))"
  by (simp add: frame_row_def image_path_def split: prod.splits)

lemma merged_nonempty:
  "dict_get (merged d row) k \<noteq> PNone \<Longrightarrow> merged d row \<noteq> []"
  by (rule dict_get_nonempty)

lemma precedence_values:
  assumes g: "gps_subtree info = merged d row"
    and v: "dict_get (merged d row) k = v" "v \<noteq> PNone"
  shows "dict_get (gps_subtree info) k = v
      \<and> py_get (py_get (build_annotation_payload info a sid s fi) ''gps'') k = v"
proof -
  have ne: "gps_subtree info \<noteq> []" using g v dict_get_nonempty [of "merged d row" k] by simp
  have pr: "prune_items (gps_subtree info) = gps_subtree info" using g merged_pruned by simp
  show ?thesis using payload_gps [OF ne pr, of a sid s fi] g v by (simp add: py_get_def)
qed

text \<open>
  C1. A record built with an attached pose row keeps, in its merged GPS sub-tree, the
  pose row's latitude, longitude, altitude and timestamp wherever the row gives one,
  whatever the embedded metadata says. When the record is rendered, the annotation that
  \<open>process_acquisition\<close> writes for it carries those values in its GPS block (and the
  timestamp in its capture block), and the trajectory row appended for it carries the
  latitude, the longitude and the altitude.
\<close>

theorem pose_precedence:
  assumes row: "map_of lookup (normalize_image_key (path entry)) = Some row"
    and m: "m \<noteq> 0"
    and fr: "fr \<in> set (enumerate_from 1 (sorted_records rs))"
    and built: "snd fr = build_record py rd lookup entry"
  shows "csv_pose (snd fr) = Some row
     \<and> WriteJson
          (annotation_path out a s (fst (sequence_ids (fst fr) m))
             (fst (snd (sequence_ids (fst fr) m))))
          (build_annotation_payload (snd fr) a (fst (sequence_ids (fst fr) m)) s
             (snd (snd (sequence_ids (fst fr) m))))
        \<in> set (acquisition_writes py a rs s m out)
     \<and> (\<exists>rows. (fst (sequence_ids (fst fr) m), rows) \<in> set (sequence_rows a rs s m out)
            \<and> frame_row a s m out fr \<in> set rows)
     \<and> (\<forall>x. gps_latitude row = Some x \<longrightarrow>
            dict_get (gps_subtree (snd fr)) ''latitude_deg'' = PFloat x
            \<and> py_get (py_get (build_annotation_payload (snd fr) a
                 (fst (sequence_ids (fst fr) m)) s (snd (snd (sequence_ids (fst fr) m))))
                 ''gps'') ''latitude_deg'' = PFloat x
            \<and> dict_get (frame_row a s m out fr) ''gps_latitude'' = PFloat x)
     \<and> (\<forall>x. gps_longitude row = Some x \<longrightarrow>
            dict_get (gps_subtree (snd fr)) ''longitude_deg'' = PFloat x
            \<and> py_get (py_get (build_annotation_payload (snd fr) a
                 (fst (sequence_ids (fst fr) m)) s (snd (snd (sequence_ids (fst fr) m))))
                 ''gps'') ''longitude_deg'' = PFloat x
            \<and> dict_get (frame_row a s m out fr) ''gps_longitude'' = PFloat x)
     \<and> (\<forall>x. gps_altitude_m row = Some x \<longrightarrow>
            dict_get (gps_subtree (snd fr)) ''altitude_m'' = PFloat x
            \<and> py_get (py_get (build_annotation_payload (snd fr) a
                 (fst (sequence_ids (fst fr) m)) s (snd (snd (sequence_ids (fst fr) m))))
                 ''gps'') ''altitude_m'' = PFloat x
            \<and> dict_get (frame_row a s m out fr) ''gps_altitude_m'' = PFloat x)
     \<and> (\<forall>t. timestamp row = Some t \<longrightarrow>
            dict_get (gps_subtree (snd fr)) ''timestamp_utc'' = PStr t
            \<and> py_get (py_get (build_annotation_payload (snd fr) a
                 (fst (sequence_ids (fst fr) m)) s (snd (snd (sequence_ids (fst fr) m))))
                 ''gps'') ''timestamp_utc'' = PStr t
            \<and> py_get (py_get (build_annotation_payload (snd fr) a
                 (fst (sequence_ids (fst fr) m)) s (snd (snd (sequence_ids (fst fr) m))))
                 ''capture'') ''gps_timestamp_utc'' = PStr t)"
proof -
  let ?d = "snd (extract_exif_metadata py (rd (path entry)))"
  let ?sid = "fst (sequence_ids (fst fr) m)"
  let ?fi = "snd (snd (sequence_ids (fst fr) m))"
  have g: "gps_subtree (snd fr) = merged ?d row" and cp: "csv_pose (snd fr) = Some row"
    unfolding built by (rule build_record_gps [OF row])+
  have ann: "WriteJson
          (annotation_path out a s ?sid (fst (snd (sequence_ids (fst fr) m))))
          (build_annotation_payload (snd fr) a ?sid s ?fi)
        \<in> set (acquisition_writes py a rs s m out)"
    using frame_writes_member [OF m fr, of a s out py] frame_writes_annotation [of out a s fr m]
    by blast
  have lat: "dict_get (gps_subtree (snd fr)) ''latitude_deg'' = PFloat x
      \<and> py_get (py_get (build_annotation_payload (snd fr) a ?sid s ?fi) ''gps'')
            ''latitude_deg'' = PFloat x
      \<and> dict_get (frame_row a s m out fr) ''gps_latitude'' = PFloat x"
    if "gps_latitude row = Some x" for x
    using precedence_values [OF g merged_values(1) [OF that, of ?d], of a ?sid s ?fi]
    by (simp add: frame_row_entry pose_entry_gps)
  have lon: "dict_get (gps_subtree (snd fr)) ''longitude_deg'' = PFloat x
      \<and> py_get (py_get (build_annotation_payload (snd fr) a ?sid s ?fi) ''gps'')
            ''longitude_deg'' = PFloat x
      \<and> dict_get (frame_row a s m out fr) ''gps_longitude'' = PFloat x"
    if "gps_longitude row = Some x" for x
    using precedence_values [OF g merged_values(2) [OF that, of ?d], of a ?sid s ?fi]
    by (simp add: frame_row_entry pose_entry_gps)
  have alt: "dict_get (gps_subtree (snd fr)) ''altitude_m'' = PFloat x
      \<and> py_get (py_get (build_annotation_payload (snd fr) a ?sid s ?fi) ''gps'')
            ''altitude_m'' = PFloat x
      \<and> dict_get (frame_row a s m out fr) ''gps_altitude_m'' = PFloat x"
    if "gps_altitude_m row = Some x" for x
    using precedence_values [OF g merged_values(3) [OF that, of ?d], of a ?sid s ?fi]
    by (simp add: frame_row_entry pose_entry_gps)
  have ts: "dict_get (gps_subtree (snd fr)) ''timestamp_utc'' = PStr t
      \<and> py_get (py_get (build_annotation_payload (snd fr) a ?sid s ?fi) ''gps'')
            ''timestamp_utc'' = PStr t
      \<and> py_get (py_get (build_annotation_payload (snd fr) a ?sid s ?fi) ''capture'')
            ''gps_timestamp_utc'' = PStr t"
    if "timestamp row = Some t" for t
  proof -
    have v: "dict_get (gps_subtree (snd fr)) ''timestamp_utc'' = PStr t"
      using g merged_values(4) [OF that, of ?d] by simp
    show ?thesis
      using precedence_values [OF g merged_values(4) [OF that, of ?d], of a ?sid s ?fi]
        payload_capture [OF v, of a ?sid s ?fi]
      by simp
  qed
  show ?thesis
    using cp ann frame_row_member [OF fr, of m a s out] lat lon alt ts by blast
qed

theorem pose_precedence_witness:
  "map_of [(''a'', sample_pose)] (normalize_image_key (path sample_entry)) = Some sample_pose
   \<and> gps_lat sample_tags = Some 10 \<and> gps_latitude sample_pose = Some 46
   \<and> dict_get (gps_subtree sample_record) ''latitude_deg'' = PFloat 46
   \<and> py_get (py_get (build_annotation_payload sample_record ''20240101-Nyon''
           (fst (sequence_ids 1 10)) ''Cam'' (snd (snd (sequence_ids 1 10)))) ''gps'')
         ''latitude_deg'' = PFloat 46
   \<and> dict_get (frame_row ''20240101-Nyon'' ''Cam'' 10 ''/out'' (1, sample_record))
         ''gps_latitude'' = PFloat 46
   \<and> py_get (py_get (build_annotation_payload sample_record ''20240101-Nyon''
           (fst (sequence_ids 1 10)) ''Cam'' (snd (snd (sequence_ids 1 10)))) ''capture'')
         ''gps_timestamp_utc'' = PStr ''2024-01-01T10:00:00Z''
   \<and> WriteJson
        (annotation_path ''/out'' ''20240101-Nyon'' ''Cam'' (fst (sequence_ids 1 10))
           (fst (snd (sequence_ids 1 10))))
        (build_annotation_payload sample_record ''20240101-Nyon'' (fst (sequence_ids 1 10))
           ''Cam'' (snd (snd (sequence_ids 1 10))))
      \<in> set (acquisition_writes toy_stdlib ''20240101-Nyon'' [sample_record] ''Cam'' 10 ''/out'')"
proof -
  have k: "normalize_image_key (path sample_entry) = ''a''" by code_simp
  have row: "map_of [(''a'', sample_pose)] (normalize_image_key (path sample_entry))
      = Some sample_pose"
    by (simp add: k)
  have m: "(10::int) \<noteq> 0" by simp
  have fr: "(1, sample_record) \<in> set (enumerate_from 1 (sorted_records [sample_record]))"
    by (simp add: sorted_records_def)
  have built: "snd (1::int, sample_record)
      = build_record toy_stdlib (\<lambda>p. sample_tags) [(''a'', sample_pose)] sample_entry"
    by (simp add: sample_record_def)
  have v: "gps_lat sample_tags = Some 10" "gps_latitude sample_pose = Some 46"
    "timestamp sample_pose = Some ''2024-01-01T10:00:00Z''"
    by (simp_all add: sample_tags_def sample_pose_def)
  show ?thesis
    using row v
      pose_precedence [OF row m fr built, of "''/out''" "''20240101-Nyon''" "''Cam''"]
    by simp
qed

section \<open>The acquisition date\<close>








section \<open>Pose CSV failures\<close>

lemma load_pose_lookup_soft:
  "load_pose_csv w p epoch = Inl e \<Longrightarrow> is_OSError e \<or> is_ValueError e \<Longrightarrow> p \<noteq> [] \<Longrightarrow>
   load_pose_lookup w (Some p) epoch True (Some p)
     = ([''Failed to read pose CSV '' @ p @ '': '' @ exn_text e], Inr [])"
  by (simp add: load_pose_lookup_def str_or_def)

lemma load_pose_lookup_hard:
  "load_pose_csv w p epoch = Inl e \<Longrightarrow> p \<noteq> [] \<Longrightarrow>
   load_pose_lookup w (Some p) epoch False label = ([], Inl e)"
  by (simp add: load_pose_lookup_def)

lemma load_pose_lookup_cases:
  "(\<forall>p e. pth = Some p \<longrightarrow> load_pose_csv w p epoch = Inl e \<longrightarrow> is_OSError e \<or> is_ValueError e) \<Longrightarrow>
   \<exists>errs lookup. load_pose_lookup w pth epoch True label = (errs, Inr lookup)"
  by (auto simp: load_pose_lookup_def split: option.splits sum.splits)

lemma process_records_returns:
  "m \<noteq> 0 \<Longrightarrow> \<exists>res. process_records_by_acquisition py rs region s m out = Inr res"
  by (simp add: process_records_by_acquisition_def Let_def process_groups_returns)

lemma multi_loop_returns:
  "m \<noteq> 0 \<Longrightarrow> length plans = length entries \<Longrightarrow>
   (\<forall>plan \<in> set plans. \<forall>p e. pose_csv_path plan = Some p \<longrightarrow> load_pose_csv w p epoch = Inl e
        \<longrightarrow> is_OSError e \<or> is_ValueError e) \<Longrightarrow>
   \<exists>res. multi_loop py w epoch m out plans entries acc = Inr res"
proof (induction plans arbitrary: entries acc)
  case Nil
  then show ?case by simp
next
  case (Cons plan plans)
  then obtain entry rest where e: "entries = entry # rest" by (cases entries) auto
  have "\<forall>p e. pose_csv_path plan = Some p \<longrightarrow> load_pose_csv w p epoch = Inl e
        \<longrightarrow> is_OSError e \<or> is_ValueError e"
    using Cons.prems(3) by simp
  from load_pose_lookup_cases [OF this]
  obtain errs lookup where l: "load_pose_lookup w (pose_csv_path plan) epoch True (pose_csv_path plan) = (errs, Inr lookup)"
    by blast
  have ih: "\<And>acc. \<exists>res. multi_loop py w epoch m out plans rest acc = Inr res"
    using Cons.IH [of rest] Cons.prems e by simp
  obtain res where r: "process_records_by_acquisition py
       (build_records py (read_exif w) (collect_image_entries w (folder plan)) lookup)
       (fst entry) (snd entry) m out = Inr res"
    using process_records_returns [OF Cons.prems(1)] by blast
  show ?case
    unfolding e multi_loop.simps l using ih r by (simp add: Let_def)
qed

lemma multi_loop_soft:
  assumes "load_pose_csv w p epoch = Inl e" "is_OSError e \<or> is_ValueError e" "p \<noteq> []"
    "pose_csv_path plan = Some p"
  shows "multi_loop py w epoch m out (plan # plans) (entry # entries) acc =
      (if collect_image_entries w (folder plan) = []
          \<or> build_records py (read_exif w) (collect_image_entries w (folder plan)) [] = []
       then multi_loop py w epoch m out plans entries
              (fst acc @ [''Failed to read pose CSV '' @ p @ '': '' @ exn_text e], snd acc)
       else
         (case process_records_by_acquisition py
                 (build_records py (read_exif w) (collect_image_entries w (folder plan)) [])
                 (fst entry) (snd entry) m out of
            Inl e \<Rightarrow> Inl e
          | Inr res \<Rightarrow>
              multi_loop py w epoch m out plans entries
                (fst acc @ [''Failed to read pose CSV '' @ p @ '': '' @ exn_text e],
                 snd acc @ snd res)))"
  using load_pose_lookup_soft [OF assms(1,2,3)] assms(4)
  by (simp add: Let_def split: sum.splits)

lemma run_single_fatal:
  assumes "load_pose_csv w p (arg_pose_epoch args) = Inl e" "is_OSError e \<or> is_ValueError e" "p \<noteq> []"
    "resolve_region w (arg_region args) = Inr region"
    "(if is_auto_value (arg_pose_csv args) then find_pose_csv_path w input_dir
      else arg_pose_csv args) = Some p"
  shows "run_single_acquisition py w input_dir out args
     = Inr (1, [''Failed to read pose CSV: '' @ exn_text e], [])"
  using assms(2,4)
  by (simp add: run_single_acquisition_def Let_def assms(5) load_pose_lookup_hard [OF assms(1,3)])


lemma broken_loader:
  "load_pose_csv broken_world p epoch = Inl (ValueError ''cannot convert float NaN to integer'')"
  by (simp add: broken_world_def)

lemma broken_batch:
  "collect_batch_region_sensor broken_world = Inr [(''Nyon'', ''Cam''), (''Nyon'', ''Cam'')]"
  by (simp add: broken_world_def)

lemma broken_region: "resolve_region broken_world (arg_region (pose_args x)) = Inr ''Nyon''"
  unfolding pose_args_def by simp code_simp

lemma explicit_path:
  "(if is_auto_value (arg_pose_csv (pose_args ''/in/f1/poses.csv''))
    then find_pose_csv_path broken_world ''/in/f1''
    else arg_pose_csv (pose_args ''/in/f1/poses.csv'')) = Some ''/in/f1/poses.csv''"
  by code_simp

text \<open>
  C8 (as amended). When \<open>load_pose_csv\<close> raises \<open>OSError\<close> or \<open>ValueError\<close> on a pose CSV,
  a multi-acquisition run, whose pose sources are all located by \<open>find_pose_csv_path\<close>,
  prints one line on standard error, builds the records of that folder with the empty
  lookup and goes on with the next folder, returning status 0 when every failure is of
  that kind; a single-acquisition run prints the failure and returns status 1 with
  nothing written, whether the path was given on the command line or located with
  \<open>auto\<close>.
\<close>

theorem pose_csv_failure:
  assumes "load_pose_csv w p epoch = Inl e" and "is_OSError e \<or> is_ValueError e" and "p \<noteq> []"
  shows
    "load_pose_lookup w (Some p) epoch True (Some p)
       = ([''Failed to read pose CSV '' @ p @ '': '' @ exn_text e], Inr [])
     \<and> load_pose_lookup w (Some p) epoch False None = ([], Inl e)
     \<and> (pose_csv_path plan = Some p \<longrightarrow>
          multi_loop py w epoch m out (plan # plans) (entry # entries) acc =
            (if collect_image_entries w (folder plan) = []
                \<or> build_records py (read_exif w) (collect_image_entries w (folder plan)) [] = []
             then multi_loop py w epoch m out plans entries
                    (fst acc @ [''Failed to read pose CSV '' @ p @ '': '' @ exn_text e], snd acc)
             else
               (case process_records_by_acquisition py
                       (build_records py (read_exif w) (collect_image_entries w (folder plan)) [])
                       (fst entry) (snd entry) m out of
                  Inl e \<Rightarrow> Inl e
                | Inr res \<Rightarrow>
                    multi_loop py w epoch m out plans entries
                      (fst acc @ [''Failed to read pose CSV '' @ p @ '': '' @ exn_text e],
                       snd acc @ snd res))))
     \<and> (m \<noteq> 0 \<and> collect_batch_region_sensor w = Inr batch \<and> length all_plans = length batch
          \<and> (\<forall>pl \<in> set all_plans. \<forall>q x. pose_csv_path pl = Some q
                \<longrightarrow> load_pose_csv w q epoch = Inl x \<longrightarrow> is_OSError x \<or> is_ValueError x)
          \<longrightarrow> run_status (run_multi_acquisition py w all_plans epoch m out) = Some 0)
     \<and> (resolve_region w (arg_region args) = Inr region \<and> arg_pose_epoch args = epoch
          \<and> (if is_auto_value (arg_pose_csv args) then find_pose_csv_path w input_dir
              else arg_pose_csv args) = Some p
          \<longrightarrow> run_single_acquisition py w input_dir out args
                = Inr (1, [''Failed to read pose CSV: '' @ exn_text e], []))"
proof (intro conjI impI)
  show "load_pose_lookup w (Some p) epoch True (Some p)
       = ([''Failed to read pose CSV '' @ p @ '': '' @ exn_text e], Inr [])"
    by (rule load_pose_lookup_soft [OF assms])
  show "load_pose_lookup w (Some p) epoch False None = ([], Inl e)"
    by (rule load_pose_lookup_hard [OF assms(1,3)])
next
  assume "pose_csv_path plan = Some p"
  then show "multi_loop py w epoch m out (plan # plans) (entry # entries) acc =
            (if collect_image_entries w (folder plan) = []
                \<or> build_records py (read_exif w) (collect_image_entries w (folder plan)) [] = []
             then multi_loop py w epoch m out plans entries
                    (fst acc @ [''Failed to read pose CSV '' @ p @ '': '' @ exn_text e], snd acc)
             else
               (case process_records_by_acquisition py
                       (build_records py (read_exif w) (collect_image_entries w (folder plan)) [])
                       (fst entry) (snd entry) m out of
                  Inl e \<Rightarrow> Inl e
                | Inr res \<Rightarrow>
                    multi_loop py w epoch m out plans entries
                      (fst acc @ [''Failed to read pose CSV '' @ p @ '': '' @ exn_text e],
                       snd acc @ snd res)))"
    by (rule multi_loop_soft [OF assms])
next
  assume a: "m \<noteq> 0 \<and> collect_batch_region_sensor w = Inr batch \<and> length all_plans = length batch
          \<and> (\<forall>pl \<in> set all_plans. \<forall>q x. pose_csv_path pl = Some q
                \<longrightarrow> load_pose_csv w q epoch = Inl x \<longrightarrow> is_OSError x \<or> is_ValueError x)"
  then obtain res where "multi_loop py w epoch m out all_plans batch ([], []) = Inr res"
    using multi_loop_returns [of m all_plans batch w epoch py out "([], [])"] by blast
  then show "run_status (run_multi_acquisition py w all_plans epoch m out) = Some 0"
    using a by (simp add: run_multi_acquisition_def run_status_def)
next
  assume a: "resolve_region w (arg_region args) = Inr region \<and> arg_pose_epoch args = epoch
          \<and> (if is_auto_value (arg_pose_csv args) then find_pose_csv_path w input_dir
              else arg_pose_csv args) = Some p"
  then have "load_pose_csv w p (arg_pose_epoch args) = Inl e" using assms(1) by simp
  from run_single_fatal [OF this assms(2,3)] a
  show "run_single_acquisition py w input_dir out args
                = Inr (1, [''Failed to read pose CSV: '' @ exn_text e], [])"
    by blast
qed

theorem pose_csv_failure_witness:
  "load_pose_lookup broken_world (Some ''/in/f1/poses.csv'') ''gps'' True (Some ''/in/f1/poses.csv'')
     = ([''Failed to read pose CSV /in/f1/poses.csv: cannot convert float NaN to integer''], Inr [])
   \<and> load_pose_lookup broken_world (Some ''/in/f1/poses.csv'') ''gps'' False None
     = ([], Inl (ValueError ''cannot convert float NaN to integer''))
   \<and> run_status (run_multi_acquisition toy_stdlib broken_world
        [folder_plan ''/in/f1'', folder_plan ''/in/f2''] ''gps'' 2000 ''/out'') = Some 0
   \<and> run_single_acquisition toy_stdlib broken_world ''/in/f1'' ''/out''
        (pose_args ''/in/f1/poses.csv'')
     = Inr (1, [''Failed to read pose CSV: cannot convert float NaN to integer''], [])"
  using pose_csv_failure [where w = broken_world and p = "''/in/f1/poses.csv''" and epoch = "''gps''"
      and e = "ValueError ''cannot convert float NaN to integer''" and m = 2000
      and batch = "[(''Nyon'', ''Cam''), (''Nyon'', ''Cam'')]"
      and all_plans = "[folder_plan ''/in/f1'', folder_plan ''/in/f2'']"
      and args = "pose_args ''/in/f1/poses.csv''" and region = "''Nyon''" and input_dir = "''/in/f1''"
      and py = toy_stdlib and out = "''/out''"]
    broken_region [of "''/in/f1/poses.csv''"] explicit_path
  by (simp add: broken_loader broken_batch is_ValueError_def exn_text_def pose_args_def)

text \<open>
  A single-acquisition run with \<open>--pose-csv auto\<close>: the pose source is located by
  \<open>find_pose_csv_path\<close>, the loader rejects it, and the run ends with status 1 and
  nothing written.
\<close>

theorem auto_located_fatal_counterexample:
  "is_auto_value (arg_pose_csv (pose_args ''auto''))
   \<and> find_pose_csv_path broken_world ''/in/f1'' = Some ''/in/f1/poses.csv''
   \<and> load_pose_csv broken_world ''/in/f1/poses.csv'' ''gps''
       = Inl (ValueError ''cannot convert float NaN to integer'')
   \<and> run_single_acquisition toy_stdlib broken_world ''/in/f1'' ''/out'' (pose_args ''auto'')
       = Inr (1, [''Failed to read pose CSV: cannot convert float NaN to integer''], [])"
  by code_simp

end
